theory Spec2Isabelle
  imports Main "HOL-Library.Sublist"
begin

section \<open>Strings\<close>

text \<open>
  A JavaScript string is modelled as a \<open>string\<close> (a list of \<open>char\<close>), each
  \<open>char\<close> read as one code unit in the range 0..255 (ASCII and Latin-1). Code units
  beyond that range are outside the model. The functions below are the String methods
  the source calls, written out on lists.
\<close>

definition DQ :: char where
  "DQ = CHR 0x22"

definition LF :: char where
  "LF = CHR 0x0A"

definition CR :: char where
  "CR = CHR 0x0D"

text \<open>\<open>s.startsWith(p)\<close> and \<open>s.endsWith(p)\<close>.\<close>

fun startsWith :: "'a list \<Rightarrow> 'a list \<Rightarrow> bool" where
  "startsWith s [] = True"
| "startsWith [] (p # ps) = False"
| "startsWith (c # cs) (p # ps) = (c = p \<and> startsWith cs ps)"

definition endsWith :: "'a list \<Rightarrow> 'a list \<Rightarrow> bool" where
  "endsWith s p = startsWith (rev s) (rev p)"

text \<open>\<open>s.includes(w)\<close>: \<open>w\<close> occurs in \<open>s\<close> as a contiguous run.\<close>

fun str_includes :: "'a list \<Rightarrow> 'a list \<Rightarrow> bool" where
  "str_includes [] w = (w = [])"
| "str_includes (c # cs) w = (startsWith (c # cs) w \<or> str_includes cs w)"

text \<open>
  \<open>s.trim()\<close> removes white space and line terminators at both ends. In the range of
  the model these are tab, line feed, vertical tab, form feed, carriage return, space
  and the no-break space.
\<close>

definition isWhiteSpace :: "char \<Rightarrow> bool" where
  "isWhiteSpace c =
     (c \<in> set [CHR 0x09, CHR 0x0A, CHR 0x0B, CHR 0x0C, CHR 0x0D, CHR 0x20, CHR 0xA0])"

definition trim :: "string \<Rightarrow> string" where
  "trim s = rev (dropWhile isWhiteSpace (rev (dropWhile isWhiteSpace s)))"

text \<open>
  \<open>s.toLowerCase()\<close>: in the range of the model the letters with a lower-case
  partner are A..Z and the Latin-1 capitals 0xC0..0xDE without the multiplication
  sign 0xD7; the partner is 32 code units further.
\<close>

definition lowerChar :: "char \<Rightarrow> char" where
  "lowerChar c =
     (let n = (of_char c :: nat)
      in if (65 \<le> n \<and> n \<le> 90) \<or> (192 \<le> n \<and> n \<le> 222 \<and> n \<noteq> 215)
         then char_of (n + 32) else c)"

definition toLowerCase :: "string \<Rightarrow> string" where
  "toLowerCase s = map lowerChar s"

text \<open>\<open>xs.join(sep)\<close> on an array of strings.\<close>

fun join :: "string \<Rightarrow> string list \<Rightarrow> string" where
  "join sep [] = []"
| "join sep [x] = x"
| "join sep (x # y # ys) = x @ sep @ join sep (y # ys)"

text \<open>
  \<open>s.replace(/c/g, r)\<close> for a single character \<open>c\<close>: every occurrence of \<open>c\<close> is
  replaced by the string \<open>r\<close>, left to right.
\<close>

fun replaceAllChar :: "char \<Rightarrow> string \<Rightarrow> string \<Rightarrow> string" where
  "replaceAllChar c r [] = []"
| "replaceAllChar c r (x # xs) = (if x = c then r @ replaceAllChar c r xs
                                  else x # replaceAllChar c r xs)"

section \<open>Credentials (types.ts)\<close>

datatype ApiKeyStatus = active | quota_exceeded | error

record ApiKeyData =
  key :: string
  status :: ApiKeyStatus
  errorMessage :: "string option"
  usageCount :: nat
  addedAt :: nat

section \<open>The speech generation call (services/geminiService.ts)\<close>

text \<open>
  The parameters of one generation call. \<open>speed\<close> and \<open>pitch\<close> are JavaScript
  numbers; their type is left open (\<open>'n\<close>) and the two conversions the source applies
  to them, \<open>speed.toFixed(2)\<close> and the template literal's number-to-string
  conversion, are parameters of the environment below.
\<close>

record 'n GenerateSpeechParams =
  content :: string
  voiceId :: string
  speed :: 'n
  pitch :: 'n
  isSSML :: bool

text \<open>
  What the remote service does with one request: it answers with a response whose
  first inline data field is present or not, or the SDK call throws. Of a thrown value
  the source reads \<open>error.toString()\<close> and \<open>error.message\<close>; an absent message is
  the empty string (both are falsy).
\<close>

record JsError =
  errString :: string
  errMessage :: string

datatype Response = Answer "string option" | Thrown JsError

text \<open>
  The collaborators the source takes from outside. \<open>remote n t v k\<close> is the outcome of
  the remote call when it is the \<open>n\<close>-th call to \<open>generateSpeech\<close> of the session, made
  with prompt text \<open>t\<close>, voice name \<open>v\<close> and API key \<open>k\<close>. \<open>createWavUrl b\<close> stands for
  \<open>URL.createObjectURL(createWavBlob(b))\<close>: the URL, or the message of the error thrown.
\<close>

record 'n Env =
  remote :: "nat \<Rightarrow> string \<Rightarrow> string \<Rightarrow> string \<Rightarrow> Response"
  toFixed2 :: "'n \<Rightarrow> string"
  numToString :: "'n \<Rightarrow> string"
  createWavUrl :: "string \<Rightarrow> string + string"

text \<open>
  \<open>text.replace(/&/g, '&amp;').replace(/</g, '&lt;').replace(/>/g, '&gt;')\<close>: three
  passes, in this order.
\<close>

definition sanitize :: "string \<Rightarrow> string" where
  "sanitize t =
     replaceAllChar (CHR ''>'') ''&gt;''
       (replaceAllChar (CHR ''<'') ''&lt;''
         (replaceAllChar (CHR ''&'') ''&amp;'' t))"

definition promptText :: "'n Env \<Rightarrow> 'n GenerateSpeechParams \<Rightarrow> string" where
  "promptText E p =
     (if \<not> isSSML p
      then ''<speak><prosody rate='' @ [DQ] @ toFixed2 E (speed p) @ [DQ] @ '' pitch='' @ [DQ]
           @ numToString E (pitch p) @ ''st'' @ [DQ] @ ''>'' @ sanitize (content p)
           @ ''</prosody></speak>''
      else content p)"

text \<open>
  The \<open>catch\<close> block of \<open>generateSpeech\<close>: the error is classified by markers in
  \<open>error.toString()\<close> and a new \<open>Error\<close> is thrown, whose message is the result here.
\<close>

definition classify :: "JsError \<Rightarrow> string" where
  "classify e =
     (if str_includes (errString e) ''429'' \<or> str_includes (errString e) ''Quota''
      then ''QUOTA_EXCEEDED''
      else if str_includes (errString e) ''403'' \<or> str_includes (errString e) ''API key''
      then ''INVALID_KEY''
      else if errMessage e \<noteq> [] then errMessage e
      else ''Unknown error during generation'')"

text \<open>
  \<open>new Error("No audio data received from the API.")\<close>, thrown inside the \<open>try\<close> block
  and so caught by the same \<open>catch\<close>.
\<close>

definition noAudioError :: JsError where
  "noAudioError =
     \<lparr>errString = ''Error: No audio data received from the API.'',
      errMessage = ''No audio data received from the API.''\<rparr>"

text \<open>
  \<open>generateSpeech\<close> returns the base64 audio (\<open>Inr\<close>) or throws an \<open>Error\<close> (\<open>Inl\<close> its
  message). The check of the API key stands before the \<open>try\<close> block: its error is not
  classified and no request is sent.
\<close>

definition generateSpeech ::
  "'n Env \<Rightarrow> nat \<Rightarrow> 'n GenerateSpeechParams \<Rightarrow> string \<Rightarrow> string + string" where
  "generateSpeech E n p apiKey =
     (if apiKey = [] then Inl ''No API Key provided for this request.''
      else case remote E n (promptText E p) (voiceId p) apiKey of
             Answer d \<Rightarrow>
               (case d of
                  None \<Rightarrow> Inl (classify noAudioError)
                | Some base64Audio \<Rightarrow>
                    if base64Audio = [] then Inl (classify noAudioError)
                    else Inr base64Audio)
           | Thrown e \<Rightarrow> Inl (classify e))"

section \<open>The application state (the App component)\<close>

datatype BatchStatus = idle | loading | success | item_error

text \<open>
  A batch item. The source's fields \<open>id\<close>, \<open>text\<close> , \<open>status\<close> and \<open>usedKey\<close> carry the prefix \<open>item_\<close>
  here; the status \<open>error\<close> of an item is \<open>item_error\<close>.
\<close>

record BatchItem =
  item_id :: string
  stt :: string
  item_text :: string
  item_status :: BatchStatus
  audioUrl :: "string option"
  errorMsg :: "string option"
  item_usedKey :: "string option"

text \<open>
  The state of the component: the React state variables and the ref \<open>globalKeyIndex\<close>.
  State updates (\<open>setApiKeys(prev => ...)\<close>) act on the latest state, so the model
  applies them to the state it threads. \<open>attempts\<close> is not a variable of the source: it
  records, in order, every call of \<open>generateSpeech\<close> the component has made, as the API
  key passed and the outcome.
\<close>

record AppState =
  apiKeys :: "ApiKeyData list"
  globalKeyIndex :: nat
  attempts :: "(string \<times> (string + string)) list"
  batchItems :: "BatchItem list"
  selectedIds :: "string set"
  singleError :: "string option"
  singleLoading :: bool
  singleAudioUrl :: "string option"
  isBatchProcessing :: bool
  showKeyModal :: bool

section \<open>API key management\<close>

definition handleAddKey :: "string \<Rightarrow> nat \<Rightarrow> ApiKeyData list \<Rightarrow> ApiKeyData list" where
  "handleAddKey newKeyInput now keys =
     (if trim newKeyInput = [] then keys
      else if \<exists>k \<in> set keys. key k = trim newKeyInput then keys
      else keys @ [\<lparr>key = trim newKeyInput, status = active, errorMessage = None,
                     usageCount = 0, addedAt = now\<rparr>])"

definition handleRemoveKey :: "string \<Rightarrow> ApiKeyData list \<Rightarrow> ApiKeyData list" where
  "handleRemoveKey keyToRemove keys = filter (\<lambda>k. key k \<noteq> keyToRemove) keys"

definition handleResetKeyStatus :: "string \<Rightarrow> ApiKeyData list \<Rightarrow> ApiKeyData list" where
  "handleResetKeyStatus keyToReset keys =
     map (\<lambda>k. if key k = keyToReset then k\<lparr>status := active, errorMessage := None\<rparr> else k) keys"

definition markKeyError :: "string \<Rightarrow> string \<Rightarrow> bool \<Rightarrow> ApiKeyData list \<Rightarrow> ApiKeyData list" where
  "markKeyError failedKey reason isQuota keys =
     map (\<lambda>k. if key k = failedKey
              then k\<lparr>status := (if isQuota then quota_exceeded else error),
                     errorMessage := Some reason\<rparr>
              else k) keys"

definition incrementKeyUsage :: "string \<Rightarrow> ApiKeyData list \<Rightarrow> ApiKeyData list" where
  "incrementKeyUsage usedKey keys =
     map (\<lambda>k. if key k = usedKey then k\<lparr>usageCount := usageCount k + 1\<rparr> else k) keys"

section \<open>Round robin and retry (attemptGenerate)\<close>

text \<open>
  \<open>attemptGenerate\<close> is created by \<open>useCallback\<close> with \<open>apiKeys\<close> among its
  dependencies: inside one call, \<open>apiKeys\<close> is the list of the render that created the
  callback, and stays that list whatever \<open>setApiKeys\<close> does meanwhile. The model takes
  it as the argument \<open>keys\<close>, apart from the state \<open>s\<close> that the updates act on.

  \<open>activeKeys\<close> is the local constant of the loop body: the keys of \<open>keys\<close> with status
  active that are not in \<open>attemptedKeys\<close>, in the order of \<open>keys\<close>.
\<close>

definition activeKeys :: "ApiKeyData list \<Rightarrow> string set \<Rightarrow> ApiKeyData list" where
  "activeKeys keys attemptedKeys =
     filter (\<lambda>k. status k = active \<and> key k \<notin> attemptedKeys) keys"

definition NO_ACTIVE_KEYS :: string where
  "NO_ACTIVE_KEYS = ''No active API keys available. Please check your key list.''"

text \<open>
  \<open>error.message || error.toString()\<close> for the \<open>Error\<close> thrown by \<open>generateSpeech\<close> with
  message \<open>m\<close>: an \<open>Error\<close> with an empty message prints as its name.
\<close>

definition errorText :: "string \<Rightarrow> string" where
  "errorText m = (if m \<noteq> [] then m else ''Error'')"

text \<open>
  The \<open>while (true)\<close> loop. The counter \<open>globalKeyIndex\<close> is a JavaScript number; the
  model counts in \<open>nat\<close> (the counter stays far below \<open>2^53\<close>, where a number stops
  counting by one).
\<close>

function attemptLoop ::
  "'n Env \<Rightarrow> ApiKeyData list \<Rightarrow> 'n GenerateSpeechParams \<Rightarrow> string set \<Rightarrow> AppState
     \<Rightarrow> (string + string) \<times> AppState" where
  "attemptLoop E keys params attemptedKeys s =
     (if length (activeKeys keys attemptedKeys) = 0 then (Inl NO_ACTIVE_KEYS, s)
      else
        let currentIdx = globalKeyIndex s mod length (activeKeys keys attemptedKeys);
            selectedKey = activeKeys keys attemptedKeys ! currentIdx;
            r = generateSpeech E (length (attempts s)) params (key selectedKey);
            s1 = s\<lparr>globalKeyIndex := globalKeyIndex s + 1,
                   attempts := attempts s @ [(key selectedKey, r)]\<rparr>
        in case r of
             Inr result \<Rightarrow>
               (Inr result, s1\<lparr>apiKeys := incrementKeyUsage (key selectedKey) (apiKeys s1)\<rparr>)
           | Inl m \<Rightarrow>
               attemptLoop E keys params (insert (key selectedKey) attemptedKeys)
                 (s1\<lparr>apiKeys := markKeyError (key selectedKey) (errorText m)
                                   (str_includes (errorText m) ''QUOTA_EXCEEDED'') (apiKeys s1)\<rparr>))"
  by pat_completeness auto
termination
proof (relation "measure (\<lambda>(E, keys, params, att, s). length (activeKeys keys att))", goal_cases)
  case 1
  show ?case by simp
next
  case (2 E keys params attemptedKeys s currentIdx selectedKey r s1 m)
  then have "selectedKey \<in> set (activeKeys keys attemptedKeys)"
    by simp
  moreover have "activeKeys keys (insert (key selectedKey) attemptedKeys) =
      filter (\<lambda>k. key k \<noteq> key selectedKey) (activeKeys keys attemptedKeys)"
    by (auto simp: activeKeys_def intro: filter_cong)
  ultimately show ?case
    using length_filter_less [of selectedKey "activeKeys keys attemptedKeys"
        "\<lambda>k. key k \<noteq> key selectedKey"]
    by simp
qed

declare attemptLoop.simps [simp del]

definition attemptGenerate ::
  "'n Env \<Rightarrow> ApiKeyData list \<Rightarrow> 'n GenerateSpeechParams \<Rightarrow> AppState
     \<Rightarrow> (string + string) \<times> AppState" where
  "attemptGenerate E keys params s = attemptLoop E keys params {} s"

section \<open>Single mode (handleSynthesizeSingle)\<close>

text \<open>
  \<open>BANNED_WORDS\<close> is imported from \<open>./constants\<close>, which is not among the sources: it
  is a parameter here. \<open>violations\<close> is the memoised value of the same name.
\<close>

definition violations :: "string list \<Rightarrow> string \<Rightarrow> string list" where
  "violations BANNED_WORDS t =
     (let lowerText = toLowerCase t
      in filter (\<lambda>word. str_includes lowerText word) BANNED_WORDS)"

text \<open>
  The message shown for a caught error: \<open>e.message || fallback\<close>.
\<close>

definition messageOr :: "string \<Rightarrow> string \<Rightarrow> string" where
  "messageOr m fallback = (if m \<noteq> [] then m else fallback)"

text \<open>
  The parameters \<open>p\<close> are the current settings of the form: the text, the API name of
  the selected voice, speed, pitch and the SSML switch. The callback is created anew
  whenever \<open>attemptGenerate\<close> is, so its \<open>apiKeys\<close> is the list of the state it is
  started in.
\<close>

definition handleSynthesizeSingle ::
  "'n Env \<Rightarrow> string list \<Rightarrow> 'n GenerateSpeechParams \<Rightarrow> AppState \<Rightarrow> AppState" where
  "handleSynthesizeSingle E BANNED_WORDS p s =
     (if trim (content p) = []
      then s\<lparr>singleError := Some ''Please enter some text to synthesize.''\<rparr>
      else if length (violations BANNED_WORDS (content p)) > 0
      then s\<lparr>singleError := Some (''Content contains banned words: ''
                                     @ join '', '' (violations BANNED_WORDS (content p)))\<rparr>
      else
        let s1 = s\<lparr>singleError := None, singleLoading := True, singleAudioUrl := None\<rparr>;
            (r, s2) = attemptGenerate E (apiKeys s) p s1;
            s3 = (case r of
                    Inr base64Audio \<Rightarrow>
                      (case createWavUrl E base64Audio of
                         Inr url \<Rightarrow> s2\<lparr>singleAudioUrl := Some url\<rparr>
                       | Inl m \<Rightarrow> s2\<lparr>singleError := Some (messageOr m
                             ''An error occurred. Please check your API keys.'')\<rparr>)
                  | Inl m \<Rightarrow> s2\<lparr>singleError := Some (messageOr m
                             ''An error occurred. Please check your API keys.'')\<rparr>)
        in s3\<lparr>singleLoading := False\<rparr>)"

section \<open>Batch mode: reading the CSV file (handleFileUpload)\<close>

text \<open>
  \<open>content.split(/\r?\n/)\<close>: the text is cut at every line feed, and a carriage
  return directly before the line feed belongs to the separator.
\<close>

fun splitLines :: "string \<Rightarrow> string list" where
  "splitLines [] = [[]]"
| "splitLines [c] = (if c = LF then [[], []] else [[c]])"
| "splitLines (c # d # cs) =
     (if c = LF then [] # splitLines (d # cs)
      else if c = CR \<and> d = LF then [] # splitLines cs
      else (case splitLines (d # cs) of
              [] \<Rightarrow> [[c]]
            | l # ls \<Rightarrow> (c # l) # ls))"

text \<open>
  \<open>line.match(/^([^,]+),(.*)$/)\<close>: the first group is everything before the first
  comma and must not be empty; the second group is the rest of the line, which
  must hold no line terminator (the dot does not match one, and \<open>$\<close> is the end of
  the string). The result is the pair of the two groups.
\<close>

definition matchLine :: "string \<Rightarrow> (string \<times> string) option" where
  "matchLine line =
     (let g1 = takeWhile (\<lambda>c. c \<noteq> CHR '','') line;
          rest = dropWhile (\<lambda>c. c \<noteq> CHR '','') line
      in if g1 = [] \<or> rest = [] then None
         else if \<exists>c \<in> set (tl rest). c = LF \<or> c = CR then None
         else Some (g1, tl rest))"

text \<open>
  \<open>if (x.startsWith('"') && x.endsWith('"')) x = x.slice(1, -1)\<close>, and
  \<open>x.replace(/""/g, '"')\<close>.
\<close>

definition stripQuotes :: "string \<Rightarrow> string" where
  "stripQuotes x = (if startsWith x [DQ] \<and> endsWith x [DQ] then butlast (tl x) else x)"

fun unescapeQuotes :: "string \<Rightarrow> string" where
  "unescapeQuotes (c # d # cs) =
     (if c = DQ \<and> d = DQ then DQ # unescapeQuotes cs else c # unescapeQuotes (d # cs))"
| "unescapeQuotes cs = cs"

text \<open>The body of \<open>dataLines.forEach\<close> for one line: the fields of the new item, if any.\<close>

definition parseLine :: "string \<Rightarrow> (string \<times> string) option" where
  "parseLine line =
     (if trim line = [] then None
      else case matchLine line of
             None \<Rightarrow> None
           | Some (g1, g2) \<Rightarrow>
               Some (stripQuotes (trim g1), unescapeQuotes (stripQuotes (trim g2))))"

text \<open>
  The identifier of a new item is \<open>Math.random().toString(36).substring(7)\<close>; \<open>rand n\<close>
  is the identifier drawn for the \<open>n\<close>-th item pushed during one upload.
\<close>

fun buildItems :: "(nat \<Rightarrow> string) \<Rightarrow> nat \<Rightarrow> string list \<Rightarrow> BatchItem list" where
  "buildItems rand n [] = []"
| "buildItems rand n (line # ls) =
     (case parseLine line of
        None \<Rightarrow> buildItems rand n ls
      | Some (sttV, textV) \<Rightarrow>
          \<lparr>item_id = rand n, stt = sttV, item_text = textV, item_status = idle,
           audioUrl = None, errorMsg = None, item_usedKey = None\<rparr>
          # buildItems rand (Suc n) ls)"

definition handleFileUpload :: "(nat \<Rightarrow> string) \<Rightarrow> string \<Rightarrow> AppState \<Rightarrow> AppState" where
  "handleFileUpload rand fileContent s =
     (let lines = splitLines fileContent;
          dataLines = (if length lines > 0 then drop 1 lines else []);
          newItems = buildItems rand 0 dataLines
      in s\<lparr>batchItems := batchItems s @ newItems,
            selectedIds := selectedIds s \<union> set (map item_id newItems)\<rparr>)"

section \<open>Batch mode: generation (processBatchItem, handleGenerateBatch)\<close>

text \<open>
  \<open>processBatchItem\<close> returns the settled copy of the item it is given. The item text
  is always sent as SSML; voice, speed and pitch are the current settings \<open>p\<close>. The
  function is created in the same render as the \<open>attemptGenerate\<close> it calls, so it
  reads the key list \<open>keys\<close> of that render.
\<close>

definition processBatchItem ::
  "'n Env \<Rightarrow> ApiKeyData list \<Rightarrow> 'n GenerateSpeechParams \<Rightarrow> BatchItem \<Rightarrow> AppState
     \<Rightarrow> BatchItem \<times> AppState" where
  "processBatchItem E keys p item s =
     (let (r, s') = attemptGenerate E keys (p\<lparr>content := item_text item, isSSML := True\<rparr>) s
      in case r of
           Inr base64Audio \<Rightarrow>
             (case createWavUrl E base64Audio of
                Inr url \<Rightarrow>
                  (item\<lparr>item_status := success, audioUrl := Some url, errorMsg := None\<rparr>, s')
              | Inl m \<Rightarrow>
                  (item\<lparr>item_status := item_error, errorMsg := Some (messageOr m ''Failed'')\<rparr>, s'))
         | Inl m \<Rightarrow>
             (item\<lparr>item_status := item_error, errorMsg := Some (messageOr m ''Failed'')\<rparr>, s'))"

text \<open>\<open>xs.findIndex(P)\<close>; the result \<open>-1\<close> of the source is \<open>None\<close>.\<close>

fun findIndex :: "('a \<Rightarrow> bool) \<Rightarrow> 'a list \<Rightarrow> nat option" where
  "findIndex P [] = None"
| "findIndex P (x # xs) =
     (if P x then Some 0 else map_option Suc (findIndex P xs))"

text \<open>
  The body of the \<open>for\<close> loop of \<open>handleGenerateBatch\<close> for one index. \<open>keys\<close> and
  \<open>items\<close> are \<open>apiKeys\<close> and \<open>batchItems\<close> as the handler's render has them; the
  updates \<open>setBatchItems(prev => ...)\<close> act on the state. No step of the run changes
  the length of the item list, so \<open>index\<close> stays within it.
\<close>

definition processIndex ::
  "'n Env \<Rightarrow> ApiKeyData list \<Rightarrow> BatchItem list \<Rightarrow> 'n GenerateSpeechParams
     \<Rightarrow> AppState \<Rightarrow> nat \<Rightarrow> AppState" where
  "processIndex E keys items p s index =
     (let s1 = s\<lparr>batchItems :=
                   (batchItems s)[index := (batchItems s ! index)\<lparr>item_status := loading\<rparr>]\<rparr>;
          currentItem = items ! index
      in case find (\<lambda>i. item_id i = item_id currentItem) items of
           None \<Rightarrow> s1
         | Some freshItem \<Rightarrow>
             let (resultItem, s2) = processBatchItem E keys p freshItem s1
             in s2\<lparr>batchItems :=
                     (case findIndex (\<lambda>i. item_id i = item_id resultItem) (batchItems s2) of
                        None \<Rightarrow> batchItems s2
                      | Some idx \<Rightarrow> (batchItems s2)[idx := resultItem])\<rparr>)"

definition itemsToProcess :: "BatchItem list \<Rightarrow> string set \<Rightarrow> (BatchItem \<times> nat) list" where
  "itemsToProcess items selected =
     filter (\<lambda>(item, index). item_id item \<in> selected \<and>
                              (item_status item = idle \<or> item_status item = item_error))
       (zip items [0 ..< length items])"

definition handleGenerateBatch ::
  "'n Env \<Rightarrow> 'n GenerateSpeechParams \<Rightarrow> AppState \<Rightarrow> AppState" where
  "handleGenerateBatch E p s =
     (if length (filter (\<lambda>k. status k = active) (apiKeys s)) = 0
      then s\<lparr>showKeyModal := True\<rparr>
      else
        (foldl (processIndex E (apiKeys s) (batchItems s) p)
           (s\<lparr>isBatchProcessing := True\<rparr>)
           (map snd (itemsToProcess (batchItems s) (selectedIds s))))
        \<lparr>isBatchProcessing := False\<rparr>)"

section \<open>The credential store (getStoredApiKeys, migrateOldKey)\<close>


type_synonym Storage = "string \<rightharpoonup> string"

definition LOCAL_STORAGE_KEY :: string where
  "LOCAL_STORAGE_KEY = ''gemini_api_keys_v2''"

definition migrateOldKey ::
  "(ApiKeyData list \<Rightarrow> string) \<Rightarrow> nat \<Rightarrow> Storage \<Rightarrow> ApiKeyData list \<times> Storage" where
  "migrateOldKey stringify now ls =
     (case ls ''gemini_api_key'' of
        None \<Rightarrow> ([], ls)
      | Some oldKey \<Rightarrow>
          if oldKey \<noteq> [] then
            let newEntry = \<lparr>key = oldKey, status = active, errorMessage = None,
                             usageCount = 0, addedAt = now\<rparr>
            in ([newEntry],
                (ls(''gemini_api_key'' := None))(LOCAL_STORAGE_KEY \<mapsto> stringify [newEntry]))
          else ([], ls))"


definition saveStoredApiKeys :: "(ApiKeyData list \<Rightarrow> string) \<Rightarrow> ApiKeyData list \<Rightarrow> Storage \<Rightarrow> Storage" where
  "saveStoredApiKeys stringify keys ls = ls(LOCAL_STORAGE_KEY \<mapsto> stringify keys)"

section \<open>Example data\<close>

text \<open>
  A small session used to run the definitions: two keys, of which \<open>K1\<close> is always
  answered with a quota error and \<open>K2\<close> with audio.
\<close>

definition demoEnv :: "nat Env" where
  "demoEnv =
     \<lparr>remote = (\<lambda>n t v k. if k = ''K1''
                           then Thrown \<lparr>errString = ''Error: 429 Too Many Requests'',
                                        errMessage = ''429 Too Many Requests''\<rparr>
                           else Answer (Some ''AUDIO'')),
      toFixed2 = (\<lambda>n. ''1.00''),
      numToString = (\<lambda>n. ''0''),
      createWavUrl = (\<lambda>b. Inr (''blob:'' @ b))\<rparr>"



definition denyK1Env :: "nat Env" where
  "denyK1Env =
     demoEnv\<lparr>remote := (\<lambda>n t v k. if k = ''K1''
                                   then Thrown \<lparr>errString = ''Error: 403 Forbidden'',
                                                errMessage = ''403 Forbidden''\<rparr>
                                   else Answer (Some ''AUDIO''))\<rparr>"

text \<open>The identifiers drawn for uploaded rows in the examples.\<close>

definition demoRand :: "nat \<Rightarrow> string" where
  "demoRand n = (if n = 0 then ''id0'' else if n = 1 then ''id1'' else ''idN'')"

definition demoKey :: "string \<Rightarrow> ApiKeyData" where
  "demoKey k = \<lparr>key = k, status = active, errorMessage = None, usageCount = 0, addedAt = 0\<rparr>"

definition demoParams :: "nat GenerateSpeechParams" where
  "demoParams = \<lparr>content = ''hi'', voiceId = ''Kore'', speed = 1, pitch = 0, isSSML = False\<rparr>"

definition demoState :: AppState where
  "demoState =
     \<lparr>apiKeys = [demoKey ''K1'', demoKey ''K2''], globalKeyIndex = 0, attempts = [],
      batchItems = [], selectedIds = {}, singleError = None, singleLoading = False,
      singleAudioUrl = None, isBatchProcessing = False, showKeyModal = False\<rparr>"

text \<open>A batch of selected idle items over the two keys.\<close>

definition demoItem :: "string \<Rightarrow> string \<Rightarrow> BatchItem" where
  "demoItem i t =
     \<lparr>item_id = i, stt = i, item_text = t, item_status = idle, audioUrl = None,
      errorMsg = None, item_usedKey = None\<rparr>"


definition pairState :: AppState where
  "pairState =
     demoState\<lparr>batchItems := [demoItem ''a'' ''one'', demoItem ''b'' ''two''],
                selectedIds := {''a'', ''b''}\<rparr>"


text \<open>The state after one call of \<open>attemptGenerate\<close> in the first session.\<close>

definition demoFinal :: AppState where
  "demoFinal =
     demoState\<lparr>apiKeys := [(demoKey ''K1'')\<lparr>status := quota_exceeded,
                                             errorMessage := Some ''QUOTA_EXCEEDED''\<rparr>,
                            (demoKey ''K2'')\<lparr>usageCount := 1\<rparr>],
                globalKeyIndex := 2,
                attempts := [(''K1'', Inl ''QUOTA_EXCEEDED''), (''K2'', Inr ''AUDIO'')]\<rparr>"




text \<open>A thrown error that names none of the markers but the word of the quota error.\<close>

definition sentinelError :: JsError where
  "sentinelError = \<lparr>errString = ''Error: QUOTA_EXCEEDED'', errMessage = ''QUOTA_EXCEEDED''\<rparr>"

section \<open>The retry loop, summarised\<close>

text \<open>
  \<open>outcomeOn a k\<close> is what one call of \<open>generateSpeech\<close> with outcome \<open>a\<close> (the key used
  and the result) does to the credential \<open>k\<close> of the state: \<open>markKeyError\<close> after a
  failure, \<open>incrementKeyUsage\<close> after a success, on the entries with that key.
\<close>

definition outcomeOn :: "string \<times> (string + string) \<Rightarrow> ApiKeyData \<Rightarrow> ApiKeyData" where
  "outcomeOn a k =
     (if key k = fst a
      then (case snd a of
              Inl m \<Rightarrow> k\<lparr>status := (if str_includes (errorText m) ''QUOTA_EXCEEDED''
                                      then quota_exceeded else error),
                           errorMessage := Some (errorText m)\<rparr>
            | Inr b \<Rightarrow> k\<lparr>usageCount := usageCount k + 1\<rparr>)
      else k)"

definition applyOutcome :: "ApiKeyData list \<Rightarrow> string \<times> (string + string) \<Rightarrow> ApiKeyData list" where
  "applyOutcome ks a = map (outcomeOn a) ks"

text \<open>
  \<open>eligibleAt keys A tr i\<close> is the list \<open>activeKeys\<close> of the \<open>i\<close>-th pass of the loop,
  when the loop started with the exclusion set \<open>A\<close> and made the calls \<open>tr\<close>.
\<close>

definition eligibleAt ::
  "ApiKeyData list \<Rightarrow> string set \<Rightarrow> (string \<times> (string + string)) list \<Rightarrow> nat
     \<Rightarrow> ApiKeyData list" where
  "eligibleAt keys A tr i = activeKeys keys (A \<union> fst ` set (take i tr))"

text \<open>
  \<open>loopRun E keys params A s res s' tr\<close>: a run of the loop from \<open>s\<close> with exclusion set
  \<open>A\<close> ends in \<open>s'\<close> with result \<open>res\<close>, having made exactly the calls \<open>tr\<close>.
\<close>

definition loopRun ::
  "'n Env \<Rightarrow> ApiKeyData list \<Rightarrow> 'n GenerateSpeechParams \<Rightarrow> string set \<Rightarrow> AppState
     \<Rightarrow> (string + string) \<Rightarrow> AppState \<Rightarrow> (string \<times> (string + string)) list \<Rightarrow> bool" where
  "loopRun E keys params A s res s' tr =
     (s' = s\<lparr>apiKeys := foldl applyOutcome (apiKeys s) tr,
             globalKeyIndex := globalKeyIndex s + length tr,
             attempts := attempts s @ tr\<rparr>
      \<and> distinct (map fst tr)
      \<and> fst ` set tr \<subseteq> key ` set (activeKeys keys A)
      \<and> (\<forall>i < length tr.
            eligibleAt keys A tr i \<noteq> [] \<and>
            fst (tr ! i) = key (eligibleAt keys A tr i
                                  ! ((globalKeyIndex s + i) mod length (eligibleAt keys A tr i))) \<and>
            snd (tr ! i) = generateSpeech E (length (attempts s) + i) params (fst (tr ! i)))
      \<and> (case res of
            Inl e \<Rightarrow> e = NO_ACTIVE_KEYS \<and> (\<forall>a \<in> set tr. isl (snd a))
                     \<and> fst ` set tr = key ` set (activeKeys keys A)
          | Inr b \<Rightarrow> tr \<noteq> [] \<and> snd (last tr) = Inr b \<and> (\<forall>a \<in> set (butlast tr). isl (snd a))))"

text \<open>
  The invariant of the credential list: an entry that is not active has a non-empty
  error message.
\<close>

definition credOk :: "ApiKeyData \<Rightarrow> bool" where
  "credOk k = (status k = active \<or> (case errorMessage k of None \<Rightarrow> False | Some m \<Rightarrow> m \<noteq> []))"

definition credInvariant :: "ApiKeyData list \<Rightarrow> bool" where
  "credInvariant ks = list_all credOk ks"

text \<open>All the calls \<open>tr\<close> of one run, applied in order to one credential.\<close>

definition outcomesOn :: "(string \<times> (string + string)) list \<Rightarrow> ApiKeyData \<Rightarrow> ApiKeyData" where
  "outcomesOn tr k = foldl (\<lambda>c a. outcomeOn a c) k tr"

text \<open>
  The value that reaches the \<open>catch\<close> block of \<open>generateSpeech\<close>, if any: what the
  SDK call throws, or the error for a response without audio data.
\<close>

definition caught :: "Response \<Rightarrow> JsError option" where
  "caught r =
     (case r of
        Thrown e \<Rightarrow> Some e
      | Answer None \<Rightarrow> Some noAudioError
      | Answer (Some b) \<Rightarrow> if b = [] then Some noAudioError else None)"

text \<open>The XML entity of a character, for comparison with the three passes of \<open>sanitize\<close>.\<close>

definition xmlEntity :: "char \<Rightarrow> string" where
  "xmlEntity c =
     (if c = CHR ''&'' then ''&amp;''
      else if c = CHR ''<'' then ''&lt;''
      else if c = CHR ''>'' then ''&gt;''
      else [c])"


text \<open>
  A field of a CSV line as the specification words it: the quotes around a quoted
  field are removed and doubled quotes inside it become single ones; an unquoted
  field is taken as it is. It is compared with \<open>parseLine\<close> below.
\<close>

definition specField :: "string \<Rightarrow> string" where
  "specField f =
     (if startsWith f [DQ] \<and> endsWith f [DQ] then unescapeQuotes (butlast (tl f)) else f)"




lemma activeKeys_insert_key:
  "key ` set (activeKeys keys (insert k A)) = key ` set (activeKeys keys A) - {k}"
  by (auto simp: activeKeys_def)

lemma markKeyError_outcome:
  "markKeyError k (errorText m) (str_includes (errorText m) ''QUOTA_EXCEEDED'') ks =
   applyOutcome ks (k, Inl m)"
  by (simp add: markKeyError_def applyOutcome_def outcomeOn_def)

lemma incrementKeyUsage_outcome:
  "incrementKeyUsage k ks = applyOutcome ks (k, Inr b)"
  by (simp add: incrementKeyUsage_def applyOutcome_def outcomeOn_def)

lemma attemptLoop_run:
  "attemptLoop E keys params A s = (res, s') \<Longrightarrow> \<exists>tr. loopRun E keys params A s res s' tr"
proof (induction E keys params A s arbitrary: res s' rule: attemptLoop.induct)
  case (1 E keys params A s)
  show ?case
  proof (cases "length (activeKeys keys A) = 0")
    case True
    with "1.prems" have "res = Inl NO_ACTIVE_KEYS" "s' = s"
      by (simp_all add: attemptLoop.simps [of E keys params A s])
    with True have "loopRun E keys params A s res s' []"
      by (simp add: loopRun_def)
    then show ?thesis ..
  next
    case False
    define idx where "idx = globalKeyIndex s mod length (activeKeys keys A)"
    define sel where "sel = activeKeys keys A ! idx"
    define r where "r = generateSpeech E (length (attempts s)) params (key sel)"
    define s1 where "s1 = s\<lparr>globalKeyIndex := globalKeyIndex s + 1,
                               attempts := attempts s @ [(key sel, r)]\<rparr>"
    from False have idx_lt: "idx < length (activeKeys keys A)"
      by (simp add: idx_def)
    then have sel_in: "sel \<in> set (activeKeys keys A)"
      by (simp add: sel_def)
    have elig0: "eligibleAt keys A tr 0 = activeKeys keys A" for tr
      by (simp add: eligibleAt_def)
    have unfold: "attemptLoop E keys params A s =
        (case r of
           Inr result \<Rightarrow> (Inr result, s1\<lparr>apiKeys := incrementKeyUsage (key sel) (apiKeys s1)\<rparr>)
         | Inl m \<Rightarrow> attemptLoop E keys params (insert (key sel) A)
                     (s1\<lparr>apiKeys := markKeyError (key sel) (errorText m)
                                   (str_includes (errorText m) ''QUOTA_EXCEEDED'') (apiKeys s1)\<rparr>))"
      using False
      by (subst attemptLoop.simps) (simp add: Let_def idx_def sel_def r_def s1_def split: sum.split)
    show ?thesis
    proof (cases r)
      case (Inr b)
      with "1.prems" unfold have res: "res = Inr b"
        and s': "s' = s1\<lparr>apiKeys := incrementKeyUsage (key sel) (apiKeys s1)\<rparr>"
        by simp_all
      have "loopRun E keys params A s res s' [(key sel, r)]"
        using False sel_in Inr
        by (simp add: loopRun_def res s' s1_def incrementKeyUsage_outcome [of _ _ b] elig0
              sel_def idx_def r_def)
      then show ?thesis ..
    next
      case (Inl m)
      define A' where "A' = insert (key sel) A"
      define s2 where "s2 = s1\<lparr>apiKeys := markKeyError (key sel) (errorText m)
                                   (str_includes (errorText m) ''QUOTA_EXCEEDED'') (apiKeys s1)\<rparr>"
      from "1.prems" unfold Inl have rec: "attemptLoop E keys params A' s2 = (res, s')"
        by (simp add: A'_def s2_def)
      have "\<exists>tr. loopRun E keys params A' s2 res s' tr"
        using "1.IH" [OF False idx_def sel_def r_def s1_def Inl, of res s'] rec
        by (simp add: A'_def s2_def)
      then obtain tr where tr: "loopRun E keys params A' s2 res s' tr" ..
      have sub: "fst ` set tr \<subseteq> key ` set (activeKeys keys A) - {key sel}"
        using tr by (simp add: loopRun_def A'_def activeKeys_insert_key)
      have elig: "eligibleAt keys A ((key sel, r) # tr) (Suc i) = eligibleAt keys A' tr i" for i
        by (simp add: eligibleAt_def A'_def)
      have "loopRun E keys params A s res s' ((key sel, r) # tr)"
        unfolding loopRun_def
      proof (intro conjI)
        show "s' = s\<lparr>apiKeys := foldl applyOutcome (apiKeys s) ((key sel, r) # tr),
                       globalKeyIndex := globalKeyIndex s + length ((key sel, r) # tr),
                       attempts := attempts s @ (key sel, r) # tr\<rparr>"
          using tr Inl by (simp add: loopRun_def s2_def s1_def markKeyError_outcome)
        show "distinct (map fst ((key sel, r) # tr))"
          using tr sub by (auto simp: loopRun_def)
        show "fst ` set ((key sel, r) # tr) \<subseteq> key ` set (activeKeys keys A)"
          using sub sel_in by auto
        show "\<forall>i<length ((key sel, r) # tr).
                eligibleAt keys A ((key sel, r) # tr) i \<noteq> [] \<and>
                fst (((key sel, r) # tr) ! i) =
                  key (eligibleAt keys A ((key sel, r) # tr) i
                        ! ((globalKeyIndex s + i) mod length (eligibleAt keys A ((key sel, r) # tr) i))) \<and>
                snd (((key sel, r) # tr) ! i) =
                  generateSpeech E (length (attempts s) + i) params (fst (((key sel, r) # tr) ! i))"
        proof (intro allI impI)
          fix i assume "i < length ((key sel, r) # tr)"
          then show "eligibleAt keys A ((key sel, r) # tr) i \<noteq> [] \<and>
                fst (((key sel, r) # tr) ! i) =
                  key (eligibleAt keys A ((key sel, r) # tr) i
                        ! ((globalKeyIndex s + i) mod length (eligibleAt keys A ((key sel, r) # tr) i))) \<and>
                snd (((key sel, r) # tr) ! i) =
                  generateSpeech E (length (attempts s) + i) params (fst (((key sel, r) # tr) ! i))"
          proof (cases i)
            case 0
            then show ?thesis using False
              by (simp add: elig0 sel_def idx_def r_def)
          next
            case (Suc j)
            with \<open>i < length ((key sel, r) # tr)\<close> have "j < length tr" by simp
            with tr have "eligibleAt keys A' tr j \<noteq> [] \<and>
                fst (tr ! j) = key (eligibleAt keys A' tr j
                        ! ((globalKeyIndex s2 + j) mod length (eligibleAt keys A' tr j))) \<and>
                snd (tr ! j) = generateSpeech E (length (attempts s2) + j) params (fst (tr ! j))"
              by (simp add: loopRun_def)
            then show ?thesis
              by (simp add: Suc elig s2_def s1_def)
          qed
        qed
        show "case res of
                Inl e \<Rightarrow> e = NO_ACTIVE_KEYS \<and> (\<forall>a \<in> set ((key sel, r) # tr). isl (snd a))
                         \<and> fst ` set ((key sel, r) # tr) = key ` set (activeKeys keys A)
              | Inr b \<Rightarrow> (key sel, r) # tr \<noteq> [] \<and> snd (last ((key sel, r) # tr)) = Inr b
                         \<and> (\<forall>a \<in> set (butlast ((key sel, r) # tr)). isl (snd a))"
        proof (cases res)
          case (Inl e)
          with tr have "e = NO_ACTIVE_KEYS" "\<forall>a \<in> set tr. isl (snd a)"
            "fst ` set tr = key ` set (activeKeys keys A) - {key sel}"
            by (simp_all add: loopRun_def A'_def activeKeys_insert_key)
          with Inl \<open>r = Inl m\<close> sel_in show ?thesis by auto
        next
          case (Inr b)
          with tr have "tr \<noteq> []" "snd (last tr) = Inr b" "\<forall>a \<in> set (butlast tr). isl (snd a)"
            by (simp_all add: loopRun_def)
          with Inr \<open>r = Inl m\<close> show ?thesis by auto
        qed
      qed
      then show ?thesis ..
    qed
  qed
qed


lemma demo_run:
  "attemptGenerate demoEnv (apiKeys demoState) demoParams demoState = (Inr ''AUDIO'', demoFinal)"
  by (simp add: attemptGenerate_def attemptLoop.simps demoEnv_def demoState_def demoKey_def demoParams_def
      demoFinal_def activeKeys_def generateSpeech_def promptText_def classify_def errorText_def
      markKeyError_def incrementKeyUsage_def Let_def)

lemma errorText_nonempty: "errorText m \<noteq> []"
  by (simp add: errorText_def)

lemma key_outcomeOn: "key (outcomeOn a c) = key c"
  by (simp add: outcomeOn_def split: sum.split)

lemma foldl_applyOutcome: "foldl applyOutcome ks tr = map (outcomesOn tr) ks"
proof (induction tr arbitrary: ks)
  case Nil
  show ?case by (simp add: outcomesOn_def)
next
  case (Cons a tr)
  have "foldl applyOutcome ks (a # tr) = map (outcomesOn tr) (applyOutcome ks a)"
    by (simp add: Cons.IH)
  also have "\<dots> = map (outcomesOn (a # tr)) ks"
    by (simp add: applyOutcome_def outcomesOn_def)
  finally show ?case .
qed

lemma outcomesOn_other:
  "key c \<notin> fst ` set tr \<Longrightarrow> outcomesOn tr c = c"
  by (induction tr arbitrary: c) (auto simp: outcomesOn_def outcomeOn_def)

lemma outcomesOn_failed:
  assumes "distinct (map fst tr)" and "(k, Inl m) \<in> set tr" and "key c = k"
  shows "outcomesOn tr c =
         c\<lparr>status := (if str_includes (errorText m) ''QUOTA_EXCEEDED'' then quota_exceeded else error),
           errorMessage := Some (errorText m)\<rparr>"
  using assms
proof (induction tr arbitrary: c)
  case Nil
  then show ?case by simp
next
  case (Cons a tr)
  show ?case
  proof (cases "a = (k, Inl m)")
    case True
    let ?c' = "outcomeOn a c"
    from Cons.prems True have "key ?c' \<notin> fst ` set tr"
      by (auto simp: key_outcomeOn)
    then have "outcomesOn tr ?c' = ?c'"
      by (rule outcomesOn_other)
    then show ?thesis
      using True Cons.prems(3) by (simp add: outcomesOn_def outcomeOn_def)
  next
    case False
    with Cons.prems have in_tr: "(k, Inl m) \<in> set tr" and ne: "fst a \<noteq> k"
      by (auto simp: rev_image_eqI)
    from ne Cons.prems(3) have same: "outcomeOn a c = c"
      by (simp add: outcomeOn_def)
    from Cons.IH [OF _ in_tr Cons.prems(3)] Cons.prems(1) same show ?thesis
      by (simp add: outcomesOn_def)
  qed
qed

lemma credOk_outcomeOn: "credOk c \<Longrightarrow> credOk (outcomeOn a c)"
  by (auto simp: credOk_def outcomeOn_def errorText_nonempty split: sum.split)

lemma credOk_outcomesOn: "credOk c \<Longrightarrow> credOk (outcomesOn tr c)"
  by (induction tr arbitrary: c) (simp_all add: outcomesOn_def credOk_outcomeOn)

lemma credInvariant_outcomes:
  "credInvariant ks \<Longrightarrow> credInvariant (foldl applyOutcome ks tr)"
  by (simp add: credInvariant_def foldl_applyOutcome list_all_iff credOk_outcomesOn)

lemma attemptGenerate_run:
  "attemptGenerate E keys params s = (res, s') \<Longrightarrow> \<exists>tr. loopRun E keys params {} s res s' tr"
  by (simp add: attemptGenerate_def attemptLoop_run)

lemma attemptGenerate_credInvariant:
  assumes "attemptGenerate E keys params s = (res, s')" and "credInvariant (apiKeys s)"
  shows "credInvariant (apiKeys s')"
proof -
  from attemptGenerate_run [OF assms(1)] obtain tr where "loopRun E keys params {} s res s' tr" ..
  then have "apiKeys s' = foldl applyOutcome (apiKeys s) tr"
    by (simp add: loopRun_def)
  with assms(2) show ?thesis
    by (simp add: credInvariant_outcomes)
qed

lemma attemptGenerate_failed_key:
  assumes run: "attemptGenerate E keys params s = (res, s')"
    and tr: "attempts s' = attempts s @ tr"
    and f: "(k, Inl m) \<in> set tr"
    and c: "c \<in> set (apiKeys s')" "key c = k"
  shows "status c = (if str_includes (errorText m) ''QUOTA_EXCEEDED'' then quota_exceeded else error)
         \<and> errorMessage c = Some (errorText m)"
proof -
  from attemptGenerate_run [OF run] obtain tr' where r: "loopRun E keys params {} s res s' tr'" ..
  then have "attempts s' = attempts s @ tr'"
    by (simp add: loopRun_def)
  with tr have eq: "tr' = tr" by simp
  from r eq have keys': "apiKeys s' = map (outcomesOn tr) (apiKeys s)" and d: "distinct (map fst tr)"
    by (simp_all add: loopRun_def foldl_applyOutcome)
  from c(1) keys' obtain c0 where c0: "c0 \<in> set (apiKeys s)" "c = outcomesOn tr c0"
    by auto
  have "key (outcomesOn tr c0) = key c0"
    by (induction tr arbitrary: c0) (simp_all add: outcomesOn_def key_outcomeOn)
  with c(2) c0 have "key c0 = k" by simp
  from outcomesOn_failed [OF d f this] c0 show ?thesis by simp
qed

lemma classify_nonempty: "classify e \<noteq> []"
  by (simp add: classify_def)

lemma generateSpeech_caught:
  "apiKey \<noteq> [] \<Longrightarrow> caught (remote E n (promptText E p) (voiceId p) apiKey) = Some e
     \<Longrightarrow> generateSpeech E n p apiKey = Inl (classify e)"
  by (auto simp: generateSpeech_def caught_def split: Response.splits option.splits if_splits)

lemma credInvariant_iff:
  "credInvariant ks \<longleftrightarrow>
     (\<forall>k \<in> set ks. status k \<noteq> active \<longrightarrow> (\<exists>m. errorMessage k = Some m \<and> m \<noteq> []))"
  by (auto simp: credInvariant_def credOk_def list_all_iff split: option.splits)

lemma credInvariant_manage:
  assumes "credInvariant ks"
  shows "credInvariant (handleResetKeyStatus k ks)"
    and "credInvariant (handleAddKey inp now ks)"
    and "credInvariant (handleRemoveKey k ks)"
    and "credInvariant (incrementKeyUsage k ks)"
    and "reason \<noteq> [] \<Longrightarrow> credInvariant (markKeyError k reason q ks)"
  using assms
  by (auto simp: credInvariant_def credOk_def list_all_iff handleResetKeyStatus_def
      handleAddKey_def handleRemoveKey_def incrementKeyUsage_def markKeyError_def)

lemma handleResetKeyStatus_entry:
  assumes "c \<in> set (handleResetKeyStatus k ks)" and "key c = k"
  shows "status c = active \<and> errorMessage c = None"
proof -
  from assms(1) have "c \<in> (\<lambda>c0. if key c0 = k then c0\<lparr>status := active, errorMessage := None\<rparr>
                               else c0) ` set ks"
    by (simp add: handleResetKeyStatus_def)
  then obtain c0 where
    c: "c = (if key c0 = k then c0\<lparr>status := active, errorMessage := None\<rparr> else c0)"
    by (rule imageE)
  show ?thesis
  proof (cases "key c0 = k")
    case True
    with c show ?thesis by simp
  next
    case False
    with c assms(2) show ?thesis by simp
  qed
qed

lemma processBatchItem_state:
  "\<exists>res. attemptGenerate E keys (p\<lparr>content := item_text item, isSSML := True\<rparr>) s
           = (res, snd (processBatchItem E keys p item s))"
proof -
  obtain r s' where run: "attemptGenerate E keys (p\<lparr>content := item_text item, isSSML := True\<rparr>) s
      = (r, s')"
    by (cases "attemptGenerate E keys (p\<lparr>content := item_text item, isSSML := True\<rparr>) s")
  then have "snd (processBatchItem E keys p item s) = s'"
    by (simp add: processBatchItem_def split: sum.splits)
  with run show ?thesis by simp
qed

lemma processBatchItem_credInvariant:
  "credInvariant (apiKeys s) \<Longrightarrow> credInvariant (apiKeys (snd (processBatchItem E keys p item s)))"
proof -
  assume inv: "credInvariant (apiKeys s)"
  obtain res where "attemptGenerate E keys (p\<lparr>content := item_text item, isSSML := True\<rparr>) s
           = (res, snd (processBatchItem E keys p item s))"
    using processBatchItem_state by blast
  then show ?thesis
    using inv by (rule attemptGenerate_credInvariant)
qed

lemma processIndex_apiKeys:
  "credInvariant (apiKeys s) \<Longrightarrow> credInvariant (apiKeys (processIndex E keys items p s index))"
proof -
  assume inv: "credInvariant (apiKeys s)"
  let ?s1 = "s\<lparr>batchItems := (batchItems s)[index := (batchItems s ! index)\<lparr>item_status := loading\<rparr>]\<rparr>"
  have inv1: "credInvariant (apiKeys ?s1)"
    using inv by simp
  show ?thesis
  proof (cases "find (\<lambda>i. item_id i = item_id (items ! index)) items")
    case None
    then show ?thesis using inv1 by (simp add: processIndex_def Let_def)
  next
    case (Some freshItem)
    obtain resultItem s2 where pb: "processBatchItem E keys p freshItem ?s1 = (resultItem, s2)"
      by (cases "processBatchItem E keys p freshItem ?s1")
    from processBatchItem_credInvariant [OF inv1, where E = E and keys = keys and p = p
        and item = freshItem] pb
    have "credInvariant (apiKeys s2)" by simp
    with Some pb show ?thesis
      by (simp add: processIndex_def Let_def)
  qed
qed

lemma foldl_processIndex_credInvariant:
  "credInvariant (apiKeys s) \<Longrightarrow>
   credInvariant (apiKeys (foldl (processIndex E keys items p) s idxs))"
  by (induction idxs arbitrary: s) (simp_all add: processIndex_apiKeys)

lemma handleGenerateBatch_credInvariant:
  "credInvariant (apiKeys s) \<Longrightarrow> credInvariant (apiKeys (handleGenerateBatch E p s))"
  using foldl_processIndex_credInvariant [of "s\<lparr>isBatchProcessing := True\<rparr>" E "apiKeys s" "batchItems s" p]
  by (simp add: handleGenerateBatch_def)

lemma handleSynthesizeSingle_credInvariant:
  assumes inv: "credInvariant (apiKeys s)"
  shows "credInvariant (apiKeys (handleSynthesizeSingle E B p s))"
proof -
  let ?s1 = "s\<lparr>singleError := None, singleLoading := True, singleAudioUrl := None\<rparr>"
  obtain r s2 where run: "attemptGenerate E (apiKeys s) p ?s1 = (r, s2)"
    by (cases "attemptGenerate E (apiKeys s) p ?s1")
  from inv have "credInvariant (apiKeys ?s1)" by simp
  with run have "credInvariant (apiKeys s2)"
    by (rule attemptGenerate_credInvariant)
  with inv run show ?thesis
    by (simp add: handleSynthesizeSingle_def Let_def split: sum.splits)
qed

section \<open>Claims about the rotation engine\<close>






section \<open>Claims about failures and the state of the credentials\<close>

text \<open>
  C4. The invariant \<open>credInvariant\<close> says that every credential whose status is not
  active has a non-empty error message. A call of \<open>attemptGenerate\<close> preserves it on
  the credentials of the state, and after the call every credential whose key failed
  in an attempt of the call has status quota_exceeded or error and a non-empty
  message. A manual reset leaves the credential active without a message. The
  invariant is preserved by adding, removing and resetting a key, by counting a use,
  by marking a key with a non-empty reason, by the migration of the old key, and by
  the single and the batch handler.
\<close>

theorem credential_invariant_preserved:
  "(credInvariant ks \<longleftrightarrow>
      (\<forall>k \<in> set ks. status k \<noteq> active \<longrightarrow> (\<exists>m. errorMessage k = Some m \<and> m \<noteq> [])))
   \<and> (attemptGenerate E keys params s = (res, s') \<longrightarrow>
        (credInvariant (apiKeys s) \<longrightarrow> credInvariant (apiKeys s'))
        \<and> (\<forall>tr k m c. attempts s' = attempts s @ tr \<and> (k, Inl m) \<in> set tr
                      \<and> c \<in> set (apiKeys s') \<and> key c = k
              \<longrightarrow> (status c = quota_exceeded \<or> status c = error)
                  \<and> (\<exists>msg. errorMessage c = Some msg \<and> msg \<noteq> [])))
   \<and> (\<forall>c \<in> set (handleResetKeyStatus k ks).
         key c = k \<longrightarrow> status c = active \<and> errorMessage c = None)
   \<and> (credInvariant ks \<longrightarrow>
         credInvariant (handleResetKeyStatus k ks)
         \<and> credInvariant (handleAddKey newKeyInput now ks)
         \<and> credInvariant (handleRemoveKey k ks)
         \<and> credInvariant (incrementKeyUsage k ks)
         \<and> (reason \<noteq> [] \<longrightarrow> credInvariant (markKeyError k reason isQuota ks)))
   \<and> credInvariant (fst (migrateOldKey stringify now ls))
   \<and> (credInvariant (apiKeys s) \<longrightarrow>
         credInvariant (apiKeys (handleSynthesizeSingle E BANNED_WORDS params s))
         \<and> credInvariant (apiKeys (handleGenerateBatch E params s)))"
proof (intro conjI)
  show "credInvariant ks \<longleftrightarrow>
      (\<forall>k \<in> set ks. status k \<noteq> active \<longrightarrow> (\<exists>m. errorMessage k = Some m \<and> m \<noteq> []))"
    by (rule credInvariant_iff)
  show "attemptGenerate E keys params s = (res, s') \<longrightarrow>
        (credInvariant (apiKeys s) \<longrightarrow> credInvariant (apiKeys s'))
        \<and> (\<forall>tr k m c. attempts s' = attempts s @ tr \<and> (k, Inl m) \<in> set tr
                      \<and> c \<in> set (apiKeys s') \<and> key c = k
              \<longrightarrow> (status c = quota_exceeded \<or> status c = error)
                  \<and> (\<exists>msg. errorMessage c = Some msg \<and> msg \<noteq> []))"
  proof (intro impI conjI allI)
    assume run: "attemptGenerate E keys params s = (res, s')"
    show "credInvariant (apiKeys s')" if "credInvariant (apiKeys s)"
      using run that by (rule attemptGenerate_credInvariant)
    fix tr k m c
    assume a: "attempts s' = attempts s @ tr \<and> (k, Inl m) \<in> set tr
               \<and> c \<in> set (apiKeys s') \<and> key c = k"
    then have a1: "attempts s' = attempts s @ tr" and a2: "(k, Inl m) \<in> set tr"
      and a3: "c \<in> set (apiKeys s')" and a4: "key c = k"
      by simp_all
    have f: "status c = (if str_includes (errorText m) ''QUOTA_EXCEEDED''
                             then quota_exceeded else error)
         \<and> errorMessage c = Some (errorText m)"
      by (rule attemptGenerate_failed_key [OF run a1 a2 a3 a4])
    from f show "status c = quota_exceeded \<or> status c = error"
      by simp
    from f show "\<exists>msg. errorMessage c = Some msg \<and> msg \<noteq> []"
      by (simp add: errorText_nonempty)
  qed
  show "\<forall>c \<in> set (handleResetKeyStatus k ks).
         key c = k \<longrightarrow> status c = active \<and> errorMessage c = None"
    by (simp add: handleResetKeyStatus_entry)
  show "credInvariant ks \<longrightarrow>
         credInvariant (handleResetKeyStatus k ks)
         \<and> credInvariant (handleAddKey newKeyInput now ks)
         \<and> credInvariant (handleRemoveKey k ks)
         \<and> credInvariant (incrementKeyUsage k ks)
         \<and> (reason \<noteq> [] \<longrightarrow> credInvariant (markKeyError k reason isQuota ks))"
    by (simp add: credInvariant_manage)
  show "credInvariant (fst (migrateOldKey stringify now ls))"
    by (simp add: migrateOldKey_def credInvariant_def credOk_def Let_def split: option.split)
  show "credInvariant (apiKeys s) \<longrightarrow>
         credInvariant (apiKeys (handleSynthesizeSingle E BANNED_WORDS params s))
         \<and> credInvariant (apiKeys (handleGenerateBatch E params s))"
    by (simp add: handleSynthesizeSingle_credInvariant handleGenerateBatch_credInvariant)
qed

theorem credential_invariant_preserved_witness:
  "attemptGenerate demoEnv (apiKeys demoState) demoParams demoState = (Inr ''AUDIO'', demoFinal)
   \<and> credInvariant (apiKeys demoState)
   \<and> credInvariant (apiKeys demoFinal)
   \<and> attempts demoFinal = attempts demoState @ attempts demoFinal
   \<and> (''K1'', Inl ''QUOTA_EXCEEDED'') \<in> set (attempts demoFinal)
   \<and> hd (apiKeys demoFinal) \<in> set (apiKeys demoFinal)
   \<and> key (hd (apiKeys demoFinal)) = ''K1''
   \<and> (status (hd (apiKeys demoFinal)) = quota_exceeded \<or> status (hd (apiKeys demoFinal)) = error)
   \<and> errorMessage (hd (apiKeys demoFinal)) = Some ''QUOTA_EXCEEDED''
   \<and> map status (handleResetKeyStatus ''K1'' (apiKeys demoFinal)) = [active, active]
   \<and> map errorMessage (handleResetKeyStatus ''K1'' (apiKeys demoFinal)) = [None, None]
   \<and> credInvariant (handleResetKeyStatus ''K1'' (apiKeys demoFinal))"
proof -
  note T = credential_invariant_preserved [where E = demoEnv and keys = "apiKeys demoState"
      and params = demoParams and s = demoState and res = "Inr ''AUDIO''" and s' = demoFinal
      and k = "''K1''" and ks = "apiKeys demoFinal"]
  have inv0: "credInvariant (apiKeys demoState)"
    by (simp add: credInvariant_def credOk_def demoState_def demoKey_def)
  have tr: "attempts demoFinal = attempts demoState @ attempts demoFinal"
    "(''K1'', Inl ''QUOTA_EXCEEDED'') \<in> set (attempts demoFinal)"
    by (simp_all add: demoFinal_def demoState_def)
  have c: "hd (apiKeys demoFinal) \<in> set (apiKeys demoFinal)" "key (hd (apiKeys demoFinal)) = ''K1''"
    by (simp_all add: demoFinal_def demoKey_def)
  have msg: "errorMessage (hd (apiKeys demoFinal)) = Some ''QUOTA_EXCEEDED''"
    by (simp add: demoFinal_def)
  have reset: "map status (handleResetKeyStatus ''K1'' (apiKeys demoFinal)) = [active, active]"
    "map errorMessage (handleResetKeyStatus ''K1'' (apiKeys demoFinal)) = [None, None]"
    by (simp_all add: handleResetKeyStatus_def demoFinal_def demoKey_def)
  from T demo_run inv0 have inv1: "credInvariant (apiKeys demoFinal)"
    by blast
  from T demo_run tr c
  have st: "status (hd (apiKeys demoFinal)) = quota_exceeded \<or> status (hd (apiKeys demoFinal)) = error"
    by blast
  from T inv1 have inv2: "credInvariant (handleResetKeyStatus ''K1'' (apiKeys demoFinal))"
    by blast
  from demo_run inv0 inv1 tr c st msg reset inv2 show ?thesis
    by (intro conjI)
qed

text \<open>
  C5, as amended. Take a call of \<open>generateSpeech\<close> made by \<open>attemptGenerate\<close> with a
  non-empty key, in which the remote call fails with error \<open>e\<close>. The call throws
  \<open>classify e\<close>, and at the end of \<open>attemptGenerate\<close> every credential with that key
  carries this message. If the error text contains 429 or Quota, the message is
  QUOTA_EXCEEDED and the status quota_exceeded. Otherwise, if it contains 403 or
  API key, the message is INVALID_KEY and the status error. Otherwise the message is
  the error's own message (or the text for an unknown error), and the status is error
  unless that message contains QUOTA_EXCEEDED, when it is quota_exceeded.
\<close>

theorem remote_failure_marks_credential:
  assumes run: "attemptGenerate E keys params s = (res, s')"
    and tr: "attempts s' = attempts s @ tr"
    and i: "i < length tr" "fst (tr ! i) \<noteq> []"
    and fail: "caught (remote E (length (attempts s) + i) (promptText E params) (voiceId params)
                 (fst (tr ! i))) = Some e"
    and c: "c \<in> set (apiKeys s')" "key c = fst (tr ! i)"
  shows "snd (tr ! i) = Inl (classify e) \<and> errorMessage c = Some (classify e)
     \<and> (str_includes (errString e) ''429'' \<or> str_includes (errString e) ''Quota''
          \<longrightarrow> classify e = ''QUOTA_EXCEEDED'' \<and> status c = quota_exceeded)
     \<and> (\<not> (str_includes (errString e) ''429'' \<or> str_includes (errString e) ''Quota'')
          \<and> (str_includes (errString e) ''403'' \<or> str_includes (errString e) ''API key'')
          \<longrightarrow> classify e = ''INVALID_KEY'' \<and> status c = error)
     \<and> (\<not> (str_includes (errString e) ''429'' \<or> str_includes (errString e) ''Quota'')
          \<and> \<not> (str_includes (errString e) ''403'' \<or> str_includes (errString e) ''API key'')
          \<longrightarrow> classify e = messageOr (errMessage e) ''Unknown error during generation''
              \<and> status c = (if str_includes (classify e) ''QUOTA_EXCEEDED''
                            then quota_exceeded else error))"
proof -
  from attemptGenerate_run [OF run] obtain tr' where r: "loopRun E keys params {} s res s' tr'" ..
  then have "attempts s' = attempts s @ tr'"
    by (simp add: loopRun_def)
  with tr have eq: "tr' = tr" by simp
  from r eq i(1) have "snd (tr ! i) = generateSpeech E (length (attempts s) + i) params (fst (tr ! i))"
    by (simp add: loopRun_def)
  with generateSpeech_caught [OF i(2) fail] have out: "snd (tr ! i) = Inl (classify e)"
    by simp
  then have "tr ! i = (fst (tr ! i), Inl (classify e))"
    by (simp add: prod_eq_iff)
  with i(1) have mem: "(fst (tr ! i), Inl (classify e)) \<in> set tr"
    by (metis nth_mem)
  have etext: "errorText (classify e) = classify e"
    by (simp add: errorText_def classify_nonempty)
  from attemptGenerate_failed_key [OF run tr mem c(1) c(2)] etext
  have st: "status c = (if str_includes (classify e) ''QUOTA_EXCEEDED'' then quota_exceeded else error)"
    and msg: "errorMessage c = Some (classify e)"
    by simp_all
  have q: "str_includes (errString e) ''429'' \<or> str_includes (errString e) ''Quota''
          \<longrightarrow> classify e = ''QUOTA_EXCEEDED'' \<and> status c = quota_exceeded"
    using st by (simp add: classify_def)
  have k: "\<not> (str_includes (errString e) ''429'' \<or> str_includes (errString e) ''Quota'')
          \<and> (str_includes (errString e) ''403'' \<or> str_includes (errString e) ''API key'')
          \<longrightarrow> classify e = ''INVALID_KEY'' \<and> status c = error"
  proof
    assume a: "\<not> (str_includes (errString e) ''429'' \<or> str_includes (errString e) ''Quota'')
          \<and> (str_includes (errString e) ''403'' \<or> str_includes (errString e) ''API key'')"
    then have "classify e = ''INVALID_KEY''"
      by (auto simp: classify_def)
    with st show "classify e = ''INVALID_KEY'' \<and> status c = error"
      by simp
  qed
  have o: "\<not> (str_includes (errString e) ''429'' \<or> str_includes (errString e) ''Quota'')
          \<and> \<not> (str_includes (errString e) ''403'' \<or> str_includes (errString e) ''API key'')
          \<longrightarrow> classify e = messageOr (errMessage e) ''Unknown error during generation''
              \<and> status c = (if str_includes (classify e) ''QUOTA_EXCEEDED''
                            then quota_exceeded else error)"
    using st by (simp add: classify_def messageOr_def)
  from out msg q k o show ?thesis by blast
qed


theorem remote_failure_marks_credential_witness:
  "attemptGenerate demoEnv (apiKeys demoState) demoParams demoState = (Inr ''AUDIO'', demoFinal)
   \<and> attempts demoFinal = attempts demoState @ attempts demoFinal
   \<and> 0 < length (attempts demoFinal) \<and> fst (attempts demoFinal ! 0) \<noteq> []
   \<and> caught (remote demoEnv (length (attempts demoState) + 0) (promptText demoEnv demoParams)
               (voiceId demoParams) (fst (attempts demoFinal ! 0)))
       = Some \<lparr>errString = ''Error: 429 Too Many Requests'', errMessage = ''429 Too Many Requests''\<rparr>
   \<and> hd (apiKeys demoFinal) \<in> set (apiKeys demoFinal)
   \<and> key (hd (apiKeys demoFinal)) = fst (attempts demoFinal ! 0)
   \<and> snd (attempts demoFinal ! 0) = Inl ''QUOTA_EXCEEDED''
   \<and> errorMessage (hd (apiKeys demoFinal)) = Some ''QUOTA_EXCEEDED''
   \<and> status (hd (apiKeys demoFinal)) = quota_exceeded"
proof -
  let ?e = "\<lparr>errString = ''Error: 429 Too Many Requests'', errMessage = ''429 Too Many Requests''\<rparr>"
  have tr: "attempts demoFinal = attempts demoState @ attempts demoFinal"
    by (simp add: demoFinal_def demoState_def)
  have i: "0 < length (attempts demoFinal)" "fst (attempts demoFinal ! 0) \<noteq> []"
    by (simp_all add: demoFinal_def)
  have fail: "caught (remote demoEnv (length (attempts demoState) + 0) (promptText demoEnv demoParams)
               (voiceId demoParams) (fst (attempts demoFinal ! 0))) = Some ?e"
    by (simp add: caught_def demoEnv_def demoFinal_def)
  have c: "hd (apiKeys demoFinal) \<in> set (apiKeys demoFinal)"
    "key (hd (apiKeys demoFinal)) = fst (attempts demoFinal ! 0)"
    by (simp_all add: demoFinal_def demoKey_def)
  have cl: "classify ?e = ''QUOTA_EXCEEDED''"
    by (simp add: classify_def)
  from remote_failure_marks_credential [OF demo_run tr i fail c] cl demo_run tr i fail c
  show ?thesis by simp
qed

text \<open>
  C5 as stated fails: an error whose text has none of the four markers, but whose
  message contains QUOTA_EXCEEDED, marks the credentials quota_exceeded, not error.
\<close>

theorem other_failure_marks_error_counterexample:
  "\<not> (str_includes (errString sentinelError) ''429'' \<or> str_includes (errString sentinelError) ''Quota'')
   \<and> \<not> (str_includes (errString sentinelError) ''403'' \<or> str_includes (errString sentinelError) ''API key'')
   \<and> map status (apiKeys (snd (attemptGenerate (demoEnv\<lparr>remote := (\<lambda>n t v k. Thrown sentinelError)\<rparr>)
                                  (apiKeys demoState) demoParams demoState)))
       = [quota_exceeded, quota_exceeded]"
  by (simp add: sentinelError_def attemptGenerate_def attemptLoop.simps demoEnv_def demoState_def demoKey_def
      demoParams_def activeKeys_def generateSpeech_def promptText_def classify_def errorText_def
      markKeyError_def Let_def NO_ACTIVE_KEYS_def)


section \<open>Claims about the request text and the local checks\<close>

lemma replaceAllChar_append:
  "replaceAllChar c r (xs @ ys) = replaceAllChar c r xs @ replaceAllChar c r ys"
  by (induction xs) simp_all

lemma sanitize_Cons: "sanitize (x # xs) = xmlEntity x @ sanitize xs"
  by (simp add: sanitize_def xmlEntity_def replaceAllChar_append)

lemma sanitize_entities: "sanitize t = concat (map xmlEntity t)"
  by (induction t) (simp_all add: sanitize_Cons, simp add: sanitize_def)

lemma promptText_remote: "promptText (E\<lparr>remote := R\<rparr>) p = promptText E p"
  by (simp add: promptText_def)

text \<open>
  C10. Without the SSML switch, the prompt text is the input with each of the
  characters \<open>&\<close>, \<open><\<close>, \<open>>\<close> replaced by its XML entity, inside
  \<open><speak><prosody rate="S" pitch="Pst">\<close> and the closing tags, where \<open>S\<close> is
  \<open>speed.toFixed(2)\<close> and \<open>P\<close> the pitch as the template literal prints it. With the
  switch, the prompt text is the input itself, and speed and pitch do not change the
  outcome of the call. A call with a non-empty key sends this prompt text, with the
  voice and the key, to the service: it returns the audio the service answers to that
  request, it throws the classified error when the service fails on that request, a
  service that echoes the text it receives makes the call return the prompt text, and
  the outcome depends on the service only through its answer to that request.
\<close>

theorem prompt_text_sent:
  "(\<not> isSSML p \<longrightarrow>
      promptText E p =
        ''<speak><prosody rate='' @ [DQ] @ toFixed2 E (speed p) @ [DQ] @ '' pitch='' @ [DQ]
        @ numToString E (pitch p) @ ''st'' @ [DQ] @ ''>'' @ concat (map xmlEntity (content p))
        @ ''</prosody></speak>'')
   \<and> (isSSML p \<longrightarrow>
        promptText E p = content p
        \<and> generateSpeech E n (p\<lparr>speed := sp, pitch := pt\<rparr>) apiKey = generateSpeech E n p apiKey)
   \<and> (R n (promptText E p) (voiceId p) apiKey = remote E n (promptText E p) (voiceId p) apiKey
        \<longrightarrow> generateSpeech (E\<lparr>remote := R\<rparr>) n p apiKey = generateSpeech E n p apiKey)
   \<and> (apiKey \<noteq> [] \<and> b \<noteq> []
        \<and> remote E n (promptText E p) (voiceId p) apiKey = Answer (Some b)
        \<longrightarrow> generateSpeech E n p apiKey = Inr b)
   \<and> (apiKey \<noteq> [] \<and> remote E n (promptText E p) (voiceId p) apiKey = Thrown e
        \<longrightarrow> generateSpeech E n p apiKey = Inl (classify e))
   \<and> (apiKey \<noteq> [] \<and> promptText E p \<noteq> []
        \<longrightarrow> generateSpeech (E\<lparr>remote := (\<lambda>n t v k. Answer (Some t))\<rparr>) n p apiKey
            = Inr (promptText E p))"
proof (intro conjI impI)
  assume "\<not> isSSML p"
  then show "promptText E p =
        ''<speak><prosody rate='' @ [DQ] @ toFixed2 E (speed p) @ [DQ] @ '' pitch='' @ [DQ]
        @ numToString E (pitch p) @ ''st'' @ [DQ] @ ''>'' @ concat (map xmlEntity (content p))
        @ ''</prosody></speak>''"
    by (simp add: promptText_def sanitize_entities)
next
  assume "isSSML p"
  then show "promptText E p = content p"
    by (simp add: promptText_def)
next
  assume "isSSML p"
  then have "promptText E (p\<lparr>speed := sp, pitch := pt\<rparr>) = promptText E p"
    by (simp add: promptText_def)
  then show "generateSpeech E n (p\<lparr>speed := sp, pitch := pt\<rparr>) apiKey = generateSpeech E n p apiKey"
    by (simp add: generateSpeech_def)
next
  assume "R n (promptText E p) (voiceId p) apiKey = remote E n (promptText E p) (voiceId p) apiKey"
  then show "generateSpeech (E\<lparr>remote := R\<rparr>) n p apiKey = generateSpeech E n p apiKey"
    by (simp add: generateSpeech_def promptText_remote)
next
  assume "apiKey \<noteq> [] \<and> b \<noteq> []
        \<and> remote E n (promptText E p) (voiceId p) apiKey = Answer (Some b)"
  then show "generateSpeech E n p apiKey = Inr b"
    by (simp add: generateSpeech_def)
next
  assume "apiKey \<noteq> [] \<and> remote E n (promptText E p) (voiceId p) apiKey = Thrown e"
  then show "generateSpeech E n p apiKey = Inl (classify e)"
    by (simp add: generateSpeech_def)
next
  assume "apiKey \<noteq> [] \<and> promptText E p \<noteq> []"
  then show "generateSpeech (E\<lparr>remote := (\<lambda>n t v k. Answer (Some t))\<rparr>) n p apiKey
            = Inr (promptText E p)"
    by (simp add: generateSpeech_def promptText_remote)
qed

theorem prompt_text_sent_witness:
  "\<not> isSSML (demoParams\<lparr>content := ''a<b & c>d''\<rparr>)
   \<and> promptText demoEnv (demoParams\<lparr>content := ''a<b & c>d''\<rparr>) =
       ''<speak><prosody rate='' @ [DQ] @ ''1.00'' @ [DQ] @ '' pitch='' @ [DQ] @ ''0st'' @ [DQ]
       @ ''>a&lt;b &amp; c&gt;d</prosody></speak>''
   \<and> isSSML (demoParams\<lparr>content := ''<speak>a</speak>'', isSSML := True\<rparr>)
   \<and> promptText demoEnv (demoParams\<lparr>content := ''<speak>a</speak>'', isSSML := True\<rparr>)
       = ''<speak>a</speak>''
   \<and> generateSpeech demoEnv 0 (demoParams\<lparr>content := ''<speak>a</speak>'', isSSML := True,
                                            speed := 2, pitch := 5\<rparr>) ''K2''
       = generateSpeech demoEnv 0 (demoParams\<lparr>content := ''<speak>a</speak>'', isSSML := True\<rparr>) ''K2''
   \<and> ''K2'' \<noteq> [] \<and> ''AUDIO'' \<noteq> []
   \<and> remote demoEnv 0 (promptText demoEnv (demoParams\<lparr>content := ''a<b & c>d''\<rparr>))
         (voiceId (demoParams\<lparr>content := ''a<b & c>d''\<rparr>)) ''K2'' = Answer (Some ''AUDIO'')
   \<and> generateSpeech demoEnv 0 (demoParams\<lparr>content := ''a<b & c>d''\<rparr>) ''K2'' = Inr ''AUDIO''
   \<and> promptText demoEnv (demoParams\<lparr>content := ''a<b & c>d''\<rparr>) \<noteq> []
   \<and> generateSpeech (demoEnv\<lparr>remote := (\<lambda>n t v k. Answer (Some t))\<rparr>) 0
         (demoParams\<lparr>content := ''a<b & c>d''\<rparr>) ''K2''
       = Inr (''<speak><prosody rate='' @ [DQ] @ ''1.00'' @ [DQ] @ '' pitch='' @ [DQ] @ ''0st'' @ [DQ]
              @ ''>a&lt;b &amp; c&gt;d</prosody></speak>'')"
proof -
  let ?p = "demoParams\<lparr>content := ''a<b & c>d''\<rparr>"
  have plain: "\<not> isSSML ?p"
    and ssml: "isSSML (demoParams\<lparr>content := ''<speak>a</speak>'', isSSML := True\<rparr>)"
    by (simp_all add: demoParams_def)
  note T = prompt_text_sent [where p = ?p and E = demoEnv and n = 0 and apiKey = "''K2''"
      and b = "''AUDIO''"]
  from plain T
  have one: "promptText demoEnv ?p =
       ''<speak><prosody rate='' @ [DQ] @ ''1.00'' @ [DQ] @ '' pitch='' @ [DQ] @ ''0st'' @ [DQ]
       @ ''>a&lt;b &amp; c&gt;d</prosody></speak>''"
    by (simp add: demoEnv_def demoParams_def xmlEntity_def)
  from ssml prompt_text_sent [where p = "demoParams\<lparr>content := ''<speak>a</speak>'', isSSML := True\<rparr>"
      and E = demoEnv and n = 0 and sp = 2 and pt = 5 and apiKey = "''K2''"]
  have two: "promptText demoEnv (demoParams\<lparr>content := ''<speak>a</speak>'', isSSML := True\<rparr>)
       = ''<speak>a</speak>''"
    "generateSpeech demoEnv 0 (demoParams\<lparr>content := ''<speak>a</speak>'', isSSML := True,
                                            speed := 2, pitch := 5\<rparr>) ''K2''
       = generateSpeech demoEnv 0 (demoParams\<lparr>content := ''<speak>a</speak>'', isSSML := True\<rparr>) ''K2''"
    by (simp_all add: demoParams_def)
  have k: "''K2'' \<noteq> []" "''AUDIO'' \<noteq> []"
    by simp_all
  have ans: "remote demoEnv 0 (promptText demoEnv ?p) (voiceId ?p) ''K2'' = Answer (Some ''AUDIO'')"
    by (simp add: demoEnv_def)
  from T k ans have got: "generateSpeech demoEnv 0 ?p ''K2'' = Inr ''AUDIO''"
    by blast
  have ne: "promptText demoEnv ?p \<noteq> []"
    by (simp add: one)
  from T k(1) ne
  have "generateSpeech (demoEnv\<lparr>remote := (\<lambda>n t v k. Answer (Some t))\<rparr>) 0 ?p ''K2''
       = Inr (promptText demoEnv ?p)"
    by blast
  then have echo: "generateSpeech (demoEnv\<lparr>remote := (\<lambda>n t v k. Answer (Some t))\<rparr>) 0 ?p ''K2''
       = Inr (''<speak><prosody rate='' @ [DQ] @ ''1.00'' @ [DQ] @ '' pitch='' @ [DQ] @ ''0st'' @ [DQ]
              @ ''>a&lt;b &amp; c&gt;d</prosody></speak>'')"
    by (simp only: one)
  from plain one ssml two k ans got ne echo show ?thesis
    by (intro conjI)
qed

lemma startsWith_prefix: "startsWith s p \<longleftrightarrow> prefix p s"
  by (induction s p rule: startsWith.induct) auto

lemma str_includes_sublist: "str_includes s w \<longleftrightarrow> sublist w s"
  by (induction s) (simp_all add: startsWith_prefix sublist_Cons_right)

lemma violations_sublist:
  "violations BANNED_WORDS t = filter (\<lambda>w. sublist w (toLowerCase t)) BANNED_WORDS"
  by (simp add: violations_def str_includes_sublist)

text \<open>
  C6, as amended. If the text is empty after trimming, or its lower-case form holds
  an entry of the banned list, as the list writes it, as a substring, then the handler
  only sets the error: the one for missing text, or else the one listing the matched
  entries. No call of \<open>generateSpeech\<close> is made and no credential changes. When every
  entry of the list is in lower case, the entries matched are those the text holds up
  to case.
\<close>

theorem single_preconditions:
  "(trim (content p) = [] \<or> (\<exists>w \<in> set BANNED_WORDS. sublist w (toLowerCase (content p)))
      \<longrightarrow> handleSynthesizeSingle E BANNED_WORDS p s =
            s\<lparr>singleError := Some
                (if trim (content p) = [] then ''Please enter some text to synthesize.''
                 else ''Content contains banned words: ''
                      @ join '', '' (filter (\<lambda>w. sublist w (toLowerCase (content p)))
                                      BANNED_WORDS))\<rparr>
          \<and> attempts (handleSynthesizeSingle E BANNED_WORDS p s) = attempts s
          \<and> apiKeys (handleSynthesizeSingle E BANNED_WORDS p s) = apiKeys s
          \<and> globalKeyIndex (handleSynthesizeSingle E BANNED_WORDS p s) = globalKeyIndex s)
   \<and> ((\<forall>w \<in> set BANNED_WORDS. toLowerCase w = w)
      \<longrightarrow> filter (\<lambda>w. sublist w (toLowerCase (content p))) BANNED_WORDS
          = filter (\<lambda>w. sublist (toLowerCase w) (toLowerCase (content p))) BANNED_WORDS)"
proof (intro conjI impI)
  assume bad: "trim (content p) = []
      \<or> (\<exists>w \<in> set BANNED_WORDS. sublist w (toLowerCase (content p)))"
  have main: "handleSynthesizeSingle E BANNED_WORDS p s =
            s\<lparr>singleError := Some
                (if trim (content p) = [] then ''Please enter some text to synthesize.''
                 else ''Content contains banned words: ''
                      @ join '', '' (filter (\<lambda>w. sublist w (toLowerCase (content p)))
                                      BANNED_WORDS))\<rparr>"
  proof (cases "trim (content p) = []")
    case True
    then show ?thesis
      by (simp add: handleSynthesizeSingle_def)
  next
    case False
    with bad obtain w where "w \<in> set BANNED_WORDS" "sublist w (toLowerCase (content p))"
      by blast
    then have "w \<in> set (violations BANNED_WORDS (content p))"
      by (simp add: violations_sublist)
    then have "violations BANNED_WORDS (content p) \<noteq> []"
      by (metis empty_iff list.set(1))
    with False show ?thesis
      by (simp add: handleSynthesizeSingle_def violations_sublist)
  qed
  then show "handleSynthesizeSingle E BANNED_WORDS p s =
            s\<lparr>singleError := Some
                (if trim (content p) = [] then ''Please enter some text to synthesize.''
                 else ''Content contains banned words: ''
                      @ join '', '' (filter (\<lambda>w. sublist w (toLowerCase (content p)))
                                      BANNED_WORDS))\<rparr>" .
  from main show "attempts (handleSynthesizeSingle E BANNED_WORDS p s) = attempts s"
    by simp
  from main show "apiKeys (handleSynthesizeSingle E BANNED_WORDS p s) = apiKeys s"
    by simp
  from main show "globalKeyIndex (handleSynthesizeSingle E BANNED_WORDS p s) = globalKeyIndex s"
    by simp
next
  assume "\<forall>w \<in> set BANNED_WORDS. toLowerCase w = w"
  then show "filter (\<lambda>w. sublist w (toLowerCase (content p))) BANNED_WORDS
          = filter (\<lambda>w. sublist (toLowerCase w) (toLowerCase (content p))) BANNED_WORDS"
    by (auto intro: filter_cong)
qed

theorem single_preconditions_witness:
  "sublist ''bomb'' (toLowerCase ''Drop the BOMB now'')
   \<and> handleSynthesizeSingle demoEnv [''bomb'', ''kill''] (demoParams\<lparr>content := ''Drop the BOMB now''\<rparr>)
        demoState
       = demoState\<lparr>singleError := Some ''Content contains banned words: bomb''\<rparr>
   \<and> attempts (handleSynthesizeSingle demoEnv [''bomb'', ''kill'']
          (demoParams\<lparr>content := ''Drop the BOMB now''\<rparr>) demoState) = attempts demoState
   \<and> trim ''   '' = []
   \<and> handleSynthesizeSingle demoEnv [''bomb'', ''kill''] (demoParams\<lparr>content := ''   ''\<rparr>) demoState
       = demoState\<lparr>singleError := Some ''Please enter some text to synthesize.''\<rparr>
   \<and> toLowerCase ''bomb'' = ''bomb'' \<and> toLowerCase ''kill'' = ''kill''
   \<and> filter (\<lambda>w. sublist w (toLowerCase ''Drop the BOMB now'')) [''bomb'', ''kill'']
       = filter (\<lambda>w. sublist (toLowerCase w) (toLowerCase ''Drop the BOMB now'')) [''bomb'', ''kill'']"
proof -
  let ?p = "demoParams\<lparr>content := ''Drop the BOMB now''\<rparr>"
  let ?q = "demoParams\<lparr>content := ''   ''\<rparr>"
  have low: "toLowerCase ''bomb'' = ''bomb''" "toLowerCase ''kill'' = ''kill''"
    "toLowerCase ''Drop the BOMB now'' = ''drop the bomb now''"
    by code_simp+
  have sub: "sublist ''bomb'' ''drop the bomb now''" "\<not> sublist ''kill'' ''drop the bomb now''"
    by code_simp+
  with low have hit: "sublist ''bomb'' (toLowerCase ''Drop the BOMB now'')"
    by simp
  have blank: "trim ''   '' = []" and ne: "trim ''Drop the BOMB now'' \<noteq> []"
    by (simp_all add: trim_def isWhiteSpace_def)
  note T = single_preconditions [where BANNED_WORDS = "[''bomb'', ''kill'']" and E = demoEnv
      and s = demoState]
  from hit have bad: "trim (content ?p) = []
      \<or> (\<exists>w \<in> set [''bomb'', ''kill'']. sublist w (toLowerCase (content ?p)))"
    by simp
  from T [where p = ?p] bad
  have one: "handleSynthesizeSingle demoEnv [''bomb'', ''kill''] ?p demoState =
            demoState\<lparr>singleError := Some
                (if trim (content ?p) = [] then ''Please enter some text to synthesize.''
                 else ''Content contains banned words: ''
                      @ join '', '' (filter (\<lambda>w. sublist w (toLowerCase (content ?p)))
                                      [''bomb'', ''kill'']))\<rparr>"
    and att: "attempts (handleSynthesizeSingle demoEnv [''bomb'', ''kill''] ?p demoState)
        = attempts demoState"
    by blast+
  from one low sub ne
  have one': "handleSynthesizeSingle demoEnv [''bomb'', ''kill''] ?p demoState
       = demoState\<lparr>singleError := Some ''Content contains banned words: bomb''\<rparr>"
    by simp
  from blank have bad2: "trim (content ?q) = []
      \<or> (\<exists>w \<in> set [''bomb'', ''kill'']. sublist w (toLowerCase (content ?q)))"
    by simp
  from T [where p = ?q] bad2
  have "handleSynthesizeSingle demoEnv [''bomb'', ''kill''] ?q demoState =
            demoState\<lparr>singleError := Some
                (if trim (content ?q) = [] then ''Please enter some text to synthesize.''
                 else ''Content contains banned words: ''
                      @ join '', '' (filter (\<lambda>w. sublist w (toLowerCase (content ?q)))
                                      [''bomb'', ''kill'']))\<rparr>"
    by blast
  with blank
  have two: "handleSynthesizeSingle demoEnv [''bomb'', ''kill''] ?q demoState
       = demoState\<lparr>singleError := Some ''Please enter some text to synthesize.''\<rparr>"
    by simp
  from low(1,2) have lower: "\<forall>w \<in> set [''bomb'', ''kill'']. toLowerCase w = w"
    by simp
  with T [where p = ?p]
  have "filter (\<lambda>w. sublist w (toLowerCase (content ?p))) [''bomb'', ''kill'']
       = filter (\<lambda>w. sublist (toLowerCase w) (toLowerCase (content ?p))) [''bomb'', ''kill'']"
    by blast
  then have same: "filter (\<lambda>w. sublist w (toLowerCase ''Drop the BOMB now'')) [''bomb'', ''kill'']
       = filter (\<lambda>w. sublist (toLowerCase w) (toLowerCase ''Drop the BOMB now'')) [''bomb'', ''kill'']"
    by simp
  from hit one' att blank two low(1,2) same show ?thesis
    by (intro conjI)
qed

text \<open>
  C6 as stated fails when an entry of the list is not in lower case: the text
  \<open>a bomb\<close> holds the entry \<open>Bomb\<close> up to case, yet no error is set and
  \<open>generateSpeech\<close> is called with both keys.
\<close>

theorem capital_entry_counterexample:
  "sublist (toLowerCase ''Bomb'') (toLowerCase ''a bomb'')
   \<and> singleError (handleSynthesizeSingle demoEnv [''Bomb''] (demoParams\<lparr>content := ''a bomb''\<rparr>)
                    demoState) = None
   \<and> attempts (handleSynthesizeSingle demoEnv [''Bomb''] (demoParams\<lparr>content := ''a bomb''\<rparr>)
                  demoState)
       = [(''K1'', Inl ''QUOTA_EXCEEDED''), (''K2'', Inr ''AUDIO'')]"
  by code_simp

section \<open>Claims about the credential store\<close>






section \<open>Claims about the batch\<close>

lemma trim_empty_iff: "trim s = [] \<longleftrightarrow> (\<forall>c \<in> set s. isWhiteSpace c)"
proof
  assume "trim s = []"
  then have "dropWhile isWhiteSpace (rev (dropWhile isWhiteSpace s)) = []"
    by (simp add: trim_def)
  then have "\<forall>c \<in> set (dropWhile isWhiteSpace s). isWhiteSpace c"
    by (simp add: dropWhile_eq_Nil_conv)
  moreover have "dropWhile isWhiteSpace s = [] \<or> \<not> isWhiteSpace (hd (dropWhile isWhiteSpace s))"
    using hd_dropWhile [of isWhiteSpace s] by blast
  ultimately have "dropWhile isWhiteSpace s = []"
    by (cases "dropWhile isWhiteSpace s") auto
  then show "\<forall>c \<in> set s. isWhiteSpace c"
    by (simp add: dropWhile_eq_Nil_conv)
next
  assume "\<forall>c \<in> set s. isWhiteSpace c"
  then have "dropWhile isWhiteSpace s = []"
    by (simp add: dropWhile_eq_Nil_conv)
  then show "trim s = []"
    by (simp add: trim_def del: dropWhile_eq_Nil_conv)
qed

lemma comma_not_space: "\<not> isWhiteSpace (CHR '','')"
  by (simp add: isWhiteSpace_def)

lemma matchLine_shape:
  assumes "l \<noteq> []" and "CHR '','' \<notin> set l" and "CR \<notin> set c" and "LF \<notin> set c"
  shows "matchLine (l @ CHR '','' # c) = Some (l, c)"
proof -
  have tw: "takeWhile (\<lambda>x. x \<noteq> CHR '','') (l @ CHR '','' # c) = l"
    using assms(2) by (subst takeWhile_append2) auto
  have dw: "dropWhile (\<lambda>x. x \<noteq> CHR '','') (l @ CHR '','' # c) = CHR '','' # c"
    using assms(2) by (subst dropWhile_append2) auto
  from assms(1,3,4) show ?thesis
    unfolding matchLine_def tw dw Let_def by auto
qed

lemma matchLine_Some:
  assumes "matchLine line = Some (l, c)"
  shows "line = l @ CHR '','' # c \<and> l \<noteq> [] \<and> CHR '','' \<notin> set l \<and> CR \<notin> set c \<and> LF \<notin> set c"
proof -
  let ?P = "\<lambda>x. x \<noteq> CHR '',''"
  from assms have l: "l = takeWhile ?P line" and ne: "l \<noteq> []" "dropWhile ?P line \<noteq> []"
    and c: "c = tl (dropWhile ?P line)" and nt: "\<not> (\<exists>x \<in> set c. x = LF \<or> x = CR)"
    by (auto simp: matchLine_def Let_def split: if_splits)
  from ne(2) have "hd (dropWhile ?P line) = CHR '',''"
    using hd_dropWhile [of ?P line] by simp
  with ne(2) c have "dropWhile ?P line = CHR '','' # c"
    by (cases "dropWhile ?P line") simp_all
  with l have "line = l @ CHR '','' # c"
    using takeWhile_dropWhile_id [of ?P line] by simp
  moreover from l have "CHR '','' \<notin> set l"
    by (auto dest: set_takeWhileD)
  ultimately show ?thesis
    using ne(1) nt by blast
qed

lemma parseLine_shape:
  assumes "l \<noteq> []" and "CHR '','' \<notin> set l" and "CR \<notin> set c" and "LF \<notin> set c"
  shows "parseLine (l @ CHR '','' # c) =
         Some (stripQuotes (trim l), unescapeQuotes (stripQuotes (trim c)))"
proof -
  have "trim (l @ CHR '','' # c) \<noteq> []"
    using comma_not_space by (auto simp: trim_empty_iff)
  then show ?thesis
    by (simp add: parseLine_def matchLine_shape [OF assms])
qed

lemma parseLine_Some:
  assumes "parseLine line = Some r"
  shows "\<exists>l c. line = l @ CHR '','' # c \<and> l \<noteq> [] \<and> CHR '','' \<notin> set l
               \<and> CR \<notin> set c \<and> LF \<notin> set c"
proof -
  from assms obtain l c where "matchLine line = Some (l, c)"
    by (auto simp: parseLine_def split: if_splits option.splits)
  from matchLine_Some [OF this] show ?thesis by blast
qed

lemma buildItems_fields:
  "map (\<lambda>i. (stt i, item_text i)) (buildItems rand n ls) = List.map_filter parseLine ls"
  by (induction ls arbitrary: n) (auto simp: List.map_filter_simps split: option.splits)

lemma buildItems_ids:
  "map item_id (buildItems rand n ls) = map rand [n ..< n + length (buildItems rand n ls)]"
proof (induction ls arbitrary: n)
  case Nil
  show ?case by simp
next
  case (Cons line ls)
  show ?case
  proof (cases "parseLine line")
    case None
    with Cons.IH [of n] show ?thesis by simp
  next
    case (Some r)
    obtain a b where r: "r = (a, b)" by (cases r)
    let ?rest = "buildItems rand (Suc n) ls"
    have "[n ..< n + Suc (length ?rest)] = n # [Suc n ..< Suc n + length ?rest]"
      by (simp add: upt_conv_Cons del: upt_Suc)
    moreover have "map item_id (buildItems rand n (line # ls)) = rand n # map item_id ?rest"
      and "length (buildItems rand n (line # ls)) = Suc (length ?rest)"
      using Some r by simp_all
    ultimately show ?thesis
      using Cons.IH [of "Suc n"] by simp

  qed
qed

lemma buildItems_idle:
  "i \<in> set (buildItems rand n ls) \<Longrightarrow>
   item_status i = idle \<and> audioUrl i = None \<and> errorMsg i = None"
  by (induction ls arbitrary: n) (auto split: option.splits)

lemma splitLines_header:
  "LF \<notin> set h \<Longrightarrow> drop 1 (splitLines (h @ LF # rest)) = splitLines rest"
proof (induction h rule: induct_list012)
  case 1
  show ?case by (cases rest) simp_all
next
  case (2 x)
  then have "x \<noteq> LF" by simp
  moreover have "splitLines (LF # rest) = [] # splitLines rest"
    by (cases rest) simp_all
  ultimately show ?case by simp
next
  case (3 x y zs)
  then have x: "x \<noteq> LF" and y: "y \<noteq> LF" and "LF \<notin> set (y # zs)"
    by auto
  with "3.IH"(2) have ih: "drop 1 (splitLines (y # zs @ LF # rest)) = splitLines rest"
    by simp
  obtain l ls where sp: "splitLines (y # zs @ LF # rest) = l # ls"
    by (cases "splitLines (y # zs @ LF # rest)") (simp_all, cases zs, simp_all split: if_splits list.splits)
  with ih x y show ?case
    by simp
qed
















lemma demo_upload:
  "handleFileUpload demoRand (''stt,text'' @ [LF] @ ''1,Hello'' @ [CR, LF] @ ''2,World'') demoState
   = demoState
       \<lparr>batchItems :=
          [\<lparr>item_id = ''id0'', stt = ''1'', item_text = ''Hello'', item_status = idle,
            audioUrl = None, errorMsg = None, item_usedKey = None\<rparr>,
           \<lparr>item_id = ''id1'', stt = ''2'', item_text = ''World'', item_status = idle,
            audioUrl = None, errorMsg = None, item_usedKey = None\<rparr>],
        selectedIds := {''id0'', ''id1''}\<rparr>"
  by (simp add: handleFileUpload_def Let_def parseLine_def matchLine_def trim_def isWhiteSpace_def
      stripQuotes_def endsWith_def demoRand_def demoState_def LF_def CR_def DQ_def)

text \<open>
  C8, as amended. The first line of the file is dropped. The upload appends one idle
  item for every later line that \<open>parseLine\<close> accepts, in the order of the lines, and
  adds the new identifiers to the selection; the items already there stay. A line is
  accepted exactly when it has the shape label, comma, content with a non-empty label
  without a comma and no carriage return in the content. Both fields are trimmed and
  lose a pair of wrapping double quotes; in the content every doubled quote becomes a
  single one, whether or not the content was quoted; the label keeps its doubled
  quotes.
\<close>

theorem upload_appends_items:
  "(LF \<notin> set header \<longrightarrow> drop 1 (splitLines (header @ LF # rest)) = splitLines rest)
   \<and> (\<exists>newItems.
         handleFileUpload rand fileContent s =
           s\<lparr>batchItems := batchItems s @ newItems,
             selectedIds := selectedIds s \<union> item_id ` set newItems\<rparr>
         \<and> map (\<lambda>i. (stt i, item_text i)) newItems
             = List.map_filter parseLine (drop 1 (splitLines fileContent))
         \<and> map item_id newItems = map rand [0 ..< length newItems]
         \<and> (\<forall>i \<in> set newItems. item_status i = idle \<and> audioUrl i = None \<and> errorMsg i = None))
   \<and> (l \<noteq> [] \<and> CHR '','' \<notin> set l \<and> CR \<notin> set c \<and> LF \<notin> set c
        \<longrightarrow> parseLine (l @ CHR '','' # c)
            = Some (stripQuotes (trim l), unescapeQuotes (stripQuotes (trim c))))
   \<and> (parseLine line \<noteq> None
        \<longrightarrow> (\<exists>l c. line = l @ CHR '','' # c \<and> l \<noteq> [] \<and> CHR '','' \<notin> set l
                   \<and> CR \<notin> set c \<and> LF \<notin> set c))"
proof (intro conjI)
  show "LF \<notin> set header \<longrightarrow> drop 1 (splitLines (header @ LF # rest)) = splitLines rest"
    using splitLines_header by blast
  let ?new = "buildItems rand 0 (drop 1 (splitLines fileContent))"
  have "handleFileUpload rand fileContent s =
           s\<lparr>batchItems := batchItems s @ ?new,
             selectedIds := selectedIds s \<union> item_id ` set ?new\<rparr>"
    by (simp add: handleFileUpload_def Let_def)
  moreover have "map (\<lambda>i. (stt i, item_text i)) ?new
             = List.map_filter parseLine (drop 1 (splitLines fileContent))"
    by (rule buildItems_fields)
  moreover have "map item_id ?new = map rand [0 ..< length ?new]"
    using buildItems_ids [of rand 0] by simp
  moreover have "\<forall>i \<in> set ?new. item_status i = idle \<and> audioUrl i = None \<and> errorMsg i = None"
    using buildItems_idle by blast
  ultimately show "\<exists>newItems.
         handleFileUpload rand fileContent s =
           s\<lparr>batchItems := batchItems s @ newItems,
             selectedIds := selectedIds s \<union> item_id ` set newItems\<rparr>
         \<and> map (\<lambda>i. (stt i, item_text i)) newItems
             = List.map_filter parseLine (drop 1 (splitLines fileContent))
         \<and> map item_id newItems = map rand [0 ..< length newItems]
         \<and> (\<forall>i \<in> set newItems. item_status i = idle \<and> audioUrl i = None \<and> errorMsg i = None)"
    by blast
  show "l \<noteq> [] \<and> CHR '','' \<notin> set l \<and> CR \<notin> set c \<and> LF \<notin> set c
        \<longrightarrow> parseLine (l @ CHR '','' # c)
            = Some (stripQuotes (trim l), unescapeQuotes (stripQuotes (trim c)))"
    by (simp add: parseLine_shape)
  show "parseLine line \<noteq> None
        \<longrightarrow> (\<exists>l c. line = l @ CHR '','' # c \<and> l \<noteq> [] \<and> CHR '','' \<notin> set l
                   \<and> CR \<notin> set c \<and> LF \<notin> set c)"
    using parseLine_Some by blast
qed

theorem upload_appends_items_witness:
  "LF \<notin> set ''stt,text''
   \<and> drop 1 (splitLines (''stt,text'' @ LF # ''1,Hello'')) = splitLines ''1,Hello''
   \<and> ''1'' \<noteq> [] \<and> CHR '','' \<notin> set ''1'' \<and> CR \<notin> set ''Hello'' \<and> LF \<notin> set ''Hello''
   \<and> parseLine (''1'' @ CHR '','' # ''Hello'') = Some (''1'', ''Hello'')
   \<and> handleFileUpload demoRand (''stt,text'' @ [LF] @ ''1,Hello'' @ [CR, LF] @ ''2,World'') demoState
      = demoState
          \<lparr>batchItems :=
             [\<lparr>item_id = ''id0'', stt = ''1'', item_text = ''Hello'', item_status = idle,
               audioUrl = None, errorMsg = None, item_usedKey = None\<rparr>,
              \<lparr>item_id = ''id1'', stt = ''2'', item_text = ''World'', item_status = idle,
               audioUrl = None, errorMsg = None, item_usedKey = None\<rparr>],
           selectedIds := {''id0'', ''id1''}\<rparr>"
proof -
  have h: "LF \<notin> set ''stt,text''"
    and f: "''1'' \<noteq> []" "CHR '','' \<notin> set ''1''" "CR \<notin> set ''Hello''" "LF \<notin> set ''Hello''"
    by (simp_all add: LF_def CR_def)
  note T = upload_appends_items [where header = "''stt,text''" and rest = "''1,Hello''"
      and l = "''1''" and c = "''Hello''"]
  from T h have d: "drop 1 (splitLines (''stt,text'' @ LF # ''1,Hello'')) = splitLines ''1,Hello''"
    by blast
  from T f have "parseLine (''1'' @ CHR '','' # ''Hello'')
      = Some (stripQuotes (trim ''1''), unescapeQuotes (stripQuotes (trim ''Hello'')))"
    by blast
  then have p: "parseLine (''1'' @ CHR '','' # ''Hello'') = Some (''1'', ''Hello'')"
    by (simp add: trim_def isWhiteSpace_def stripQuotes_def DQ_def)
  from h d f p demo_upload show ?thesis
    by (intro conjI)
qed

text \<open>
  C8 as stated fails for a quoted label: the row \<open>"a""b",x\<close> gets the label
  \<open>a""b\<close>, where the unescaped field is \<open>a"b\<close>.
\<close>

theorem quoted_fields_counterexample:
  "specField ([DQ] @ ''a'' @ [DQ, DQ] @ ''b'' @ [DQ]) = ''a'' @ [DQ] @ ''b''
   \<and> map stt (batchItems (handleFileUpload demoRand
          (''stt,text'' @ [LF] @ [DQ] @ ''a'' @ [DQ, DQ] @ ''b'' @ [DQ] @ '',x'') demoState))
       = [''a'' @ [DQ, DQ] @ ''b'']"
  by (simp add: specField_def handleFileUpload_def Let_def parseLine_def matchLine_def trim_def
      isWhiteSpace_def stripQuotes_def endsWith_def demoRand_def demoState_def LF_def CR_def DQ_def)





text \<open>
  C3. The claim that a key that failed is not selected again before a manual reset
  does not hold inside one bulk run. The run and every \<open>attemptGenerate\<close> it calls read
  the key list of the render that started the run. In the example the service rejects
  \<open>K1\<close>: after the first item \<open>K1\<close> has status error in the state, and the second
  item calls \<open>generateSpeech\<close> with \<open>K1\<close> again.
\<close>

theorem failed_key_reused_in_batch:
  "map status (apiKeys (processIndex denyK1Env (apiKeys pairState) (batchItems pairState) demoParams
                          (pairState\<lparr>isBatchProcessing := True\<rparr>) 0))
     = [error, active]
   \<and> attempts (processIndex denyK1Env (apiKeys pairState) (batchItems pairState) demoParams
                 (pairState\<lparr>isBatchProcessing := True\<rparr>) 0)
     = [(''K1'', Inl ''INVALID_KEY''), (''K2'', Inr ''AUDIO'')]
   \<and> attempts (handleGenerateBatch denyK1Env demoParams pairState)
     = [(''K1'', Inl ''INVALID_KEY''), (''K2'', Inr ''AUDIO''),
        (''K1'', Inl ''INVALID_KEY''), (''K2'', Inr ''AUDIO'')]
   \<and> map status (apiKeys (handleGenerateBatch denyK1Env demoParams pairState)) = [error, active]"
  by code_simp


end
